theory Spec2Isabelle
  imports Main "HOL-Library.AList" "HOL-Library.Sublist"
begin

section \<open>Provider enrichment script (main.py): a shallow embedding\<close>

text \<open>
  The script reads a table of health-care providers, asks a places lookup service for an
  identifier, a map URL, coordinates and a photo URL of every row, and stores the enriched
  table in two spreadsheets and one database table. Network, file and database calls are
  modelled as oracles whose answers may depend on the requests issued so far; every raise of
  the source is an \<open>Inl\<close> branch of the model.
\<close>

subsection \<open>Faults\<close>

datatype fault =
    RequestException    \<comment> \<open>\<open>requests.get\<close> raised: connection error, timeout\<close>
  | JSONDecodeError     \<comment> \<open>\<open>response.json()\<close> on a body that is not JSON\<close>
  | KeyError string     \<comment> \<open>a dictionary or column key that is absent\<close>
  | IndexError          \<comment> \<open>a list index out of range\<close>
  | TypeError           \<comment> \<open>\<open>+\<close> between a string and a value that is not one\<close>
  | AttributeError      \<comment> \<open>an attribute read on \<open>None\<close>\<close>
  | UnboundLocalError string  \<comment> \<open>a local variable read before any assignment\<close>
  | FileError           \<comment> \<open>the spreadsheet reader raised\<close>
  | DatabaseError       \<comment> \<open>the database driver raised\<close>

subsection \<open>Type classifier\<close>

text \<open>
  \<^verbatim>\<open>type_options = ["health", "hospital", "pharmacy", "dentist"]
return any(type_option in store_type for type_option in type_options)\<close>

  The argument is the \<open>types\<close> entry of a candidate, a list of strings; on a list, Python's
  \<open>in\<close> is membership by equality of elements.
\<close>

definition type_options :: "string list" where
  "type_options = [''health'', ''hospital'', ''pharmacy'', ''dentist'']"

definition check_type_in_response :: "string list \<Rightarrow> bool" where
  "check_type_in_response store_type =
     list_ex (\<lambda>type_option. type_option \<in> set store_type) type_options"

text \<open>
  The classifier as the specification words it: some label of the collection contains one of
  the recognised words as a substring.
\<close>

definition spec_substring_classifier :: "string list \<Rightarrow> bool" where
  "spec_substring_classifier store_type =
     list_ex (\<lambda>label. list_ex (\<lambda>type_option. sublist type_option label) type_options) store_type"

subsection \<open>Table cells, rows and requests\<close>

text \<open>
  A cell of the table is a Python \<open>str\<close>, a missing value (NaN, what an empty spreadsheet
  cell is read as) or some other value (a number, a date). The script only ever
  concatenates cells, converts them to strings and sends them as a request parameter, so a
  value of the last kind is carried as the text \<open>str\<close> gives of it.
\<close>

datatype cell = Text string | Other string | Missing

text \<open>
  \<open>column.astype(str)\<close>, cell by cell: a value becomes its string and a missing value stays
  missing (so pandas 3 does it; earlier versions gave the text \<open>nan\<close>).
\<close>

fun astype_str :: "cell \<Rightarrow> cell" where
  "astype_str (Text s) = Text s"
| "astype_str (Other s) = Text s"
| "astype_str Missing = Missing"

text \<open>
  \<open>+\<close> between string columns, or a string column and a string, cell by cell: the
  concatenation, and the missing value when an operand is missing. (After \<open>astype(str)\<close> no
  operand is of the third kind.)
\<close>

fun str_add :: "cell \<Rightarrow> cell \<Rightarrow> cell" where
  "str_add (Text a) (Text b) = Text (a @ b)"
| "str_add _ _ = Missing"

text \<open>
  \<open>a + b\<close> in \<open>row_value["name"] + ", " + row_value["city"]\<close>, on the values of a row: one
  side is a string there, and adding a value that is not a string (a number, NaN) to a
  string raises.
\<close>

fun cell_add :: "cell \<Rightarrow> cell \<Rightarrow> fault + cell" where
  "cell_add (Text a) (Text b) = Inr (Text (a @ b))"
| "cell_add _ _ = Inl TypeError"

text \<open>\<open>d[k]\<close> on a dictionary or a row: the value, or \<open>KeyError\<close>.\<close>

definition getitem :: "(string \<times> 'a) list \<Rightarrow> string \<Rightarrow> fault + 'a" where
  "getitem d k = (case map_of d k of None \<Rightarrow> Inl (KeyError k) | Some v \<Rightarrow> Inr v)"

type_synonym row = "(string \<times> cell) list"

text \<open>\<open>os.getenv("KEY")\<close>: \<open>None\<close> when the variable is not set.\<close>

type_synonym api_key = "string option"

text \<open>The three endpoints of the lookup service, with the parameters that vary.\<close>

datatype request =
    FindPlaceFromText cell api_key   \<comment> \<open>\<open>input\<close>, \<open>key\<close>\<close>
  | PlaceDetails string api_key      \<comment> \<open>\<open>place_id\<close>, \<open>key\<close>\<close>
  | PlacePhoto string api_key        \<comment> \<open>\<open>photo_reference\<close>, \<open>key\<close>\<close>

subsection \<open>Responses and payloads\<close>

text \<open>
  A response object: its status, its body as \<open>response.json()\<close> parses it (\<open>None\<close> when the
  body is not JSON, where \<open>json()\<close> raises) and the URL of the request. The payloads have the
  shape the endpoints document: identifiers, URLs and photo references are strings, the types
  of a candidate are a list of strings. A key that a payload may lack is an \<open>option\<close>,
  \<open>None\<close> when absent. Coordinates are numbers, carried as the text \<open>str\<close> gives of them.
\<close>

record 'a response =
  status_code :: int
  json :: "'a option"
  url :: string

record candidate =
  c_place_id :: "string option"
  c_types :: "string list option"

record find_json =
  j_candidates :: "candidate list option"

record photo =
  p_photo_reference :: "string option"

record location =
  l_lat :: "string option"
  l_lng :: "string option"

record geometry =
  g_location :: "location option"

record place =
  r_url :: "string option"
  r_geometry :: "geometry option"
  r_photos :: "photo list option"

record details_json =
  d_result :: "place option"

text \<open>
  The lookup service: for each endpoint, what \<open>requests.get\<close> does (raise, or return a
  response) given the requests issued before this one and the parameters of this one.
\<close>

record service =
  findplacefromtext :: "request list \<Rightarrow> cell \<Rightarrow> api_key \<Rightarrow> fault + find_json response"
  details :: "request list \<Rightarrow> string \<Rightarrow> api_key \<Rightarrow> fault + details_json response"
  photo_endpoint :: "request list \<Rightarrow> string \<Rightarrow> api_key \<Rightarrow> fault + unit response"

subsection \<open>Candidate resolver\<close>

text \<open>
  \<^verbatim>\<open>if value is not None:
    response = requests.get(endpoint, params=params, timeout=10)
else:
    response = None
return response\<close>
  The log of requests is threaded through every call; a request is logged whether
  \<open>requests.get\<close> returns or raises.
\<close>

definition get_place_api ::
  "service \<Rightarrow> cell option \<Rightarrow> api_key \<Rightarrow> request list
     \<Rightarrow> (fault + find_json response option) \<times> request list" where
  "get_place_api svc value api_key log =
     (case value of
        Some v \<Rightarrow>
          (case findplacefromtext svc log v api_key of
             Inl f \<Rightarrow> (Inl f, log @ [FindPlaceFromText v api_key])
           | Inr response \<Rightarrow> (Inr (Some response), log @ [FindPlaceFromText v api_key]))
      | None \<Rightarrow> (Inr None, log))"

definition max_retries :: nat where
  "max_retries = 3"

text \<open>The query text of an attempt: the \<open>if\<close>/\<open>elif\<close> chain on \<open>retry_count\<close>.\<close>

definition query_value :: "row \<Rightarrow> nat \<Rightarrow> fault + cell option" where
  "query_value row_value retry_count =
     (if retry_count = 0 then
        (case getitem row_value ''alamat_parameter'' of
           Inl f \<Rightarrow> Inl f
         | Inr v \<Rightarrow> Inr (Some v))
      else if retry_count = 1 then
        (case getitem row_value ''name'' of
           Inl f \<Rightarrow> Inl f
         | Inr n \<Rightarrow>
            (case cell_add n (Text '', '') of
               Inl f \<Rightarrow> Inl f
             | Inr nc \<Rightarrow>
                (case getitem row_value ''city'' of
                   Inl f \<Rightarrow> Inl f
                 | Inr c \<Rightarrow>
                    (case cell_add nc c of
                       Inl f \<Rightarrow> Inl f
                     | Inr v \<Rightarrow> Inr (Some v)))))
      else if retry_count = 2 then
        (case getitem row_value ''address'' of
           Inl f \<Rightarrow> Inl f
         | Inr v \<Rightarrow> Inr (Some v))
      else Inr None)"

text \<open>
  The \<open>for\<close> loop over the candidates, as recursion on the list: the first candidate whose
  types the classifier accepts gives the new \<open>place_id\<close> and ends the loop (\<open>break\<close>); with
  none, \<open>place_id\<close> is as before.
\<close>

fun for_candidates :: "candidate list \<Rightarrow> string option \<Rightarrow> fault + string option" where
  "for_candidates [] place_id = Inr place_id"
| "for_candidates (c # cs) place_id =
     (case c_types c of
        None \<Rightarrow> Inl (KeyError ''types'')
      | Some store_type \<Rightarrow>
          if check_type_in_response store_type then
            (case c_place_id c of
               None \<Rightarrow> Inl (KeyError ''place_id'')
             | Some p \<Rightarrow> Inr (Some p))
          else for_candidates cs place_id)"

text \<open>\<open>response.json()\<close>, then \<open>response_json["candidates"]\<close>, then the \<open>for\<close> loop.\<close>

definition scan_response :: "find_json response \<Rightarrow> string option \<Rightarrow> fault + string option" where
  "scan_response response place_id =
     (case json response of
        None \<Rightarrow> Inl JSONDecodeError
      | Some response_json \<Rightarrow>
          (case j_candidates response_json of
             None \<Rightarrow> Inl (KeyError ''candidates'')
           | Some cs \<Rightarrow> for_candidates cs place_id))"

text \<open>
  \<^verbatim>\<open>while place_id is None and retry_count < max_retries:\<close>
  The loop carries \<open>place_id\<close> (\<open>None\<close> is Python's \<open>None\<close>), \<open>retry_count\<close> and the log.
  \<open>response.status_code\<close> on a \<open>None\<close> response raises \<open>AttributeError\<close>.
\<close>

function while_loop ::
  "service \<Rightarrow> row \<Rightarrow> api_key \<Rightarrow> string option \<Rightarrow> nat \<Rightarrow> request list
     \<Rightarrow> (fault + string option) \<times> request list" where
  "while_loop svc row_value api_key place_id retry_count log =
     (if place_id = None \<and> retry_count < max_retries then
        (case query_value row_value retry_count of
           Inl f \<Rightarrow> (Inl f, log)
         | Inr value \<Rightarrow>
            (case get_place_api svc value api_key log of
               (Inl f, log') \<Rightarrow> (Inl f, log')
             | (Inr None, log') \<Rightarrow> (Inl AttributeError, log')
             | (Inr (Some response), log') \<Rightarrow>
                 if status_code response = 200 then
                   (case scan_response response place_id of
                      Inl f \<Rightarrow> (Inl f, log')
                    | Inr place_id' \<Rightarrow>
                        while_loop svc row_value api_key place_id' (retry_count + 1) log')
                 else while_loop svc row_value api_key place_id (retry_count + 1) log'))
      else (Inr place_id, log))"
  by pat_completeness auto
termination
  by (relation "measure (\<lambda>(svc, row_value, api_key, place_id, retry_count, log).
        max_retries - retry_count)") auto

definition get_place_id_from_text_query ::
  "service \<Rightarrow> row \<Rightarrow> api_key \<Rightarrow> request list \<Rightarrow> (fault + string option) \<times> request list" where
  "get_place_id_from_text_query svc row_value api_key log =
     while_loop svc row_value api_key None 0 log"

subsection \<open>Detail fetcher and image URL deriver\<close>

text \<open>
  \<^verbatim>\<open>response = requests.get(endpoint, params=params, timeout=10)
response_json = response.json()\<close>
  One request, no check of the status.
\<close>

definition get_place_info_from_place_id ::
  "service \<Rightarrow> string \<Rightarrow> api_key \<Rightarrow> request list \<Rightarrow> (fault + details_json) \<times> request list" where
  "get_place_info_from_place_id svc place_id api_key log =
     (case details svc log place_id api_key of
        Inl f \<Rightarrow> (Inl f, log @ [PlaceDetails place_id api_key])
      | Inr response \<Rightarrow>
          (case json response of
             None \<Rightarrow> (Inl JSONDecodeError, log @ [PlaceDetails place_id api_key])
           | Some response_json \<Rightarrow> (Inr response_json, log @ [PlaceDetails place_id api_key])))"

text \<open>\<open>image_url = response.url\<close>: the URL of the request is the result.\<close>

definition get_image_url_from_photo_preference ::
  "service \<Rightarrow> string \<Rightarrow> api_key \<Rightarrow> request list \<Rightarrow> (fault + string) \<times> request list" where
  "get_image_url_from_photo_preference svc photo_reference api_key log =
     (case photo_endpoint svc log photo_reference api_key of
        Inl f \<Rightarrow> (Inl f, log @ [PlacePhoto photo_reference api_key])
      | Inr response \<Rightarrow> (Inr (url response), log @ [PlacePhoto photo_reference api_key]))"

subsection \<open>The table\<close>

text \<open>
  A data frame, column by column as pandas holds it: the number of rows (the index is
  \<open>0, 1, \<dots>\<close>, as \<open>read_excel\<close> gives it) and the columns in order, each a label with one
  cell per row.
\<close>

record data_frame =
  nrows :: nat
  columns :: "(string \<times> cell list) list"

text \<open>\<open>data_frame[label] = values\<close>: replaces the column in place, or appends a new one.\<close>

definition setitem :: "data_frame \<Rightarrow> string \<Rightarrow> cell list \<Rightarrow> data_frame" where
  "setitem df label vs = df\<lparr>columns := AList.update label vs (columns df)\<rparr>"

text \<open>
  \<open>data_frame.at[index, label] = v\<close>. In the script the label is one of the columns created
  before the loop and the index comes from \<open>iterrows\<close>; for a label that is absent pandas
  adds a column that is missing in the other rows.
\<close>

definition at_set :: "data_frame \<Rightarrow> nat \<Rightarrow> string \<Rightarrow> cell \<Rightarrow> data_frame" where
  "at_set df index label v =
     setitem df label
       ((case map_of (columns df) label of
           None \<Rightarrow> replicate (nrows df) Missing
         | Some vs \<Rightarrow> vs)[index := v])"

text \<open>\<open>data_frame.iterrows()\<close>: the pairs of index and row, in order.\<close>

definition iterrows :: "data_frame \<Rightarrow> (nat \<times> row) list" where
  "iterrows df = map (\<lambda>i. (i, map (\<lambda>(label, vs). (label, vs ! i)) (columns df))) [0..<nrows df]"

text \<open>
  \<open>data_frame.drop(columns=labels)\<close>: \<open>KeyError\<close> when a label is not a column, else the
  frame without these columns, the others in their order.
\<close>

definition drop_columns :: "data_frame \<Rightarrow> string list \<Rightarrow> fault + data_frame" where
  "drop_columns df labels =
     (case filter (\<lambda>l. l \<notin> fst ` set (columns df)) labels of
        [] \<Rightarrow> Inr (df\<lparr>columns := filter (\<lambda>(label, vs). label \<notin> set labels) (columns df)\<rparr>)
      | l # _ \<Rightarrow> Inl (KeyError l))"

text \<open>The cell of a frame at a label and an index, for stating properties.\<close>

definition cell_at :: "data_frame \<Rightarrow> string \<Rightarrow> nat \<Rightarrow> cell option" where
  "cell_at df label i =
     (case map_of (columns df) label of
        None \<Rightarrow> None
      | Some vs \<Rightarrow> if i < length vs then Some (vs ! i) else None)"

subsection \<open>Enrichment pipeline\<close>

text \<open>\<open>str(place_id)\<close> of the resolver's result: \<open>str(None)\<close> is the text \<open>None\<close>.\<close>

fun str_place_id :: "string option \<Rightarrow> string" where
  "str_place_id None = ''None''"
| "str_place_id (Some s) = s"

text \<open>\<open>place_result["result"]["url"]\<close> and the like: each missing key raises.\<close>

definition result_url :: "details_json \<Rightarrow> fault + string" where
  "result_url place_result =
     (case d_result place_result of
        None \<Rightarrow> Inl (KeyError ''result'')
      | Some r \<Rightarrow> (case r_url r of None \<Rightarrow> Inl (KeyError ''url'') | Some u \<Rightarrow> Inr u))"

definition result_location :: "details_json \<Rightarrow> fault + location" where
  "result_location place_result =
     (case d_result place_result of
        None \<Rightarrow> Inl (KeyError ''result'')
      | Some r \<Rightarrow>
          (case r_geometry r of
             None \<Rightarrow> Inl (KeyError ''geometry'')
           | Some g \<Rightarrow>
               (case g_location g of None \<Rightarrow> Inl (KeyError ''location'') | Some l \<Rightarrow> Inr l)))"

definition result_lat :: "details_json \<Rightarrow> fault + string" where
  "result_lat place_result =
     (case result_location place_result of
        Inl f \<Rightarrow> Inl f
      | Inr l \<Rightarrow> (case l_lat l of None \<Rightarrow> Inl (KeyError ''lat'') | Some v \<Rightarrow> Inr v))"

definition result_lng :: "details_json \<Rightarrow> fault + string" where
  "result_lng place_result =
     (case result_location place_result of
        Inl f \<Rightarrow> Inl f
      | Inr l \<Rightarrow> (case l_lng l of None \<Rightarrow> Inl (KeyError ''lng'') | Some v \<Rightarrow> Inr v))"

text \<open>\<open>place_result["result"]["photos"][0]["photo_reference"]\<close>\<close>

definition first_photo_reference :: "details_json \<Rightarrow> fault + string" where
  "first_photo_reference place_result =
     (case d_result place_result of
        None \<Rightarrow> Inl (KeyError ''result'')
      | Some r \<Rightarrow>
          (case r_photos r of
             None \<Rightarrow> Inl (KeyError ''photos'')
           | Some [] \<Rightarrow> Inl IndexError
           | Some (p # _) \<Rightarrow>
               (case p_photo_reference p of
                  None \<Rightarrow> Inl (KeyError ''photo_reference'')
                | Some ref \<Rightarrow> Inr ref)))"

text \<open>
  The body of the \<open>try\<close> of one row. A statement that raises ends the body; the frame and the
  log are as the statements before it left them. (The \<open>print\<close> calls are not modelled.)
\<close>

definition row_body ::
  "service \<Rightarrow> api_key \<Rightarrow> nat \<Rightarrow> row \<Rightarrow> data_frame \<Rightarrow> request list
     \<Rightarrow> (fault + unit) \<times> data_frame \<times> request list" where
  "row_body svc api_key index row df log =
     (case get_place_id_from_text_query svc row api_key log of
        (Inl f, log1) \<Rightarrow> (Inl f, df, log1)
      | (Inr resolved, log1) \<Rightarrow>
          let place_id = str_place_id resolved;
              df1 = at_set df index ''place_id'' (Text place_id)
          in (case get_place_info_from_place_id svc place_id api_key log1 of
                (Inl f, log2) \<Rightarrow> (Inl f, df1, log2)
              | (Inr place_result, log2) \<Rightarrow>
                  (case result_url place_result of
                     Inl f \<Rightarrow> (Inl f, df1, log2)
                   | Inr u \<Rightarrow>
                       let df2 = at_set df1 index ''map_url'' (Text u)
                       in (case result_lat place_result of
                             Inl f \<Rightarrow> (Inl f, df2, log2)
                           | Inr lat \<Rightarrow>
                               let df3 = at_set df2 index ''latitude'' (Text lat)
                               in (case result_lng place_result of
                                     Inl f \<Rightarrow> (Inl f, df3, log2)
                                   | Inr lng \<Rightarrow>
                                       let df4 = at_set df3 index ''longitude'' (Text lng)
                                       in (case first_photo_reference place_result of
                                             Inl f \<Rightarrow> (Inl f, df4, log2)
                                           | Inr photo_reference \<Rightarrow>
                                               (case get_image_url_from_photo_preference svc
                                                       photo_reference api_key log2 of
                                                  (Inl f, log3) \<Rightarrow> (Inl f, df4, log3)
                                                | (Inr image_url, log3) \<Rightarrow>
                                                    (Inr (),
                                                     at_set df4 index ''image_url'' (Text image_url),
                                                     log3))))))))"

text \<open>\<open>try: \<dots> except Exception as error: print(\<dots>)\<close>: the fault is dropped.\<close>

definition process_row ::
  "service \<Rightarrow> api_key \<Rightarrow> nat \<times> row \<Rightarrow> data_frame \<times> request list \<Rightarrow> data_frame \<times> request list" where
  "process_row svc api_key ir st =
     snd (row_body svc api_key (fst ir) (snd ir) (fst st) (snd st))"

text \<open>\<open>for index, row in data_frame.iterrows():\<close>\<close>

definition enrich ::
  "service \<Rightarrow> api_key \<Rightarrow> data_frame \<Rightarrow> request list \<Rightarrow> data_frame \<times> request list" where
  "enrich svc api_key df log = fold (process_row svc api_key) (iterrows df) (df, log)"

subsection \<open>Persistence and the main program\<close>

text \<open>
  The database driver: for each call of the script, the fault it raises, if any. The calls
  are \<open>psycopg2.connect\<close>, \<open>connection.cursor()\<close>, \<open>check_table_exits\<close> (the \<open>CREATE TABLE IF
  NOT EXISTS\<close> statement and its commit) and \<open>insert_data\<close> (the append of the frame).
\<close>

record database =
  connect :: "fault option"
  cursor :: "fault option"
  check_table_exits :: "fault option"
  insert_data :: "fault option"

text \<open>
  What the run leaves behind: the requests sent to the lookup service, the spreadsheets
  written and the frames appended to the table \<open>list_rumah_sakit\<close>, each in order.
\<close>

record world =
  requests :: "request list"
  files :: "(string \<times> data_frame) list"
  appended :: "data_frame list"

definition to_excel :: "world \<Rightarrow> string \<Rightarrow> data_frame \<Rightarrow> world" where
  "to_excel w path df = w\<lparr>files := files w @ [(path, df)]\<rparr>"

definition columns_to_delete :: "string list" where
  "columns_to_delete = [''alamat_parameter'', ''place_id'']"

text \<open>
  The \<open>try\<close> block with its \<open>except Exception\<close>, which only prints. The result says whether
  the local variables \<open>connection\<close> and \<open>cursor\<close> have been assigned when the block is left,
  and gives the world then.
\<close>

definition db_try :: "database \<Rightarrow> data_frame \<Rightarrow> world \<Rightarrow> bool \<times> bool \<times> world" where
  "db_try db df w =
     (case connect db of
        Some f \<Rightarrow> (False, False, w)
      | None \<Rightarrow>
          (case cursor db of
             Some f \<Rightarrow> (True, False, w)
           | None \<Rightarrow>
               (case check_table_exits db of
                  Some f \<Rightarrow> (True, True, w)
                | None \<Rightarrow>
                    (case insert_data db of
                       Some f \<Rightarrow> (True, True, w)
                     | None \<Rightarrow> (True, True, w\<lparr>appended := appended w @ [df]\<rparr>)))))"

text \<open>
  \<^verbatim>\<open>finally:
    if cursor:
        cursor.close()
    if connection:
        connection.close()\<close>
  Reading a local variable that was never assigned raises \<open>UnboundLocalError\<close>; a fault
  raised in a \<open>finally\<close> block leaves the function.
\<close>

definition db_finally :: "bool \<Rightarrow> bool \<Rightarrow> fault + unit" where
  "db_finally connection_assigned cursor_assigned =
     (if \<not> cursor_assigned then Inl (UnboundLocalError ''cursor'')
      else if \<not> connection_assigned then Inl (UnboundLocalError ''connection'')
      else Inr ())"

text \<open>
  The script from the first \<open>to_excel\<close> on: snapshot, drop, database, final export. Writing a
  spreadsheet and closing the cursor and the connection are taken to succeed.
\<close>

definition persist :: "database \<Rightarrow> data_frame \<Rightarrow> world \<Rightarrow> (fault + unit) \<times> world" where
  "persist db df w =
     (let w1 = to_excel w ''output_file_selesai_belum.xlsx'' df
      in (case drop_columns df columns_to_delete of
            Inl f \<Rightarrow> (Inl f, w1)
          | Inr df' \<Rightarrow>
              (case db_try db df' w1 of
                 (connection_assigned, cursor_assigned, w2) \<Rightarrow>
                   (case db_finally connection_assigned cursor_assigned of
                      Inl f \<Rightarrow> (Inl f, w2)
                    | Inr _ \<Rightarrow> (Inr (), to_excel w2 ''list-provider-end.xlsx'' df')))))"

text \<open>
  \<^verbatim>\<open>data_frame["name"].astype(str) + ", " + data_frame["address"].astype(str)
  + ", " + data_frame["city"].astype(str)\<close>
\<close>

definition alamat_parameter :: "data_frame \<Rightarrow> fault + cell list" where
  "alamat_parameter df =
     (case getitem (columns df) ''name'' of
        Inl f \<Rightarrow> Inl f
      | Inr names \<Rightarrow>
          (case getitem (columns df) ''address'' of
             Inl f \<Rightarrow> Inl f
           | Inr addresses \<Rightarrow>
               (case getitem (columns df) ''city'' of
                  Inl f \<Rightarrow> Inl f
                | Inr cities \<Rightarrow>
                    Inr (map (\<lambda>(n, a, c).
                                str_add (str_add (str_add (str_add (astype_str n) (Text '', ''))
                                  (astype_str a)) (Text '', '')) (astype_str c))
                           (zip names (zip addresses cities))))))"

text \<open>The new columns of the script, each filled with the empty string.\<close>

definition blank :: "data_frame \<Rightarrow> cell list" where
  "blank df = replicate (nrows df) (Text [])"

definition blank_columns :: "data_frame \<Rightarrow> data_frame" where
  "blank_columns df =
     fold (\<lambda>label d. setitem d label (blank df))
       [''place_id'', ''map_url'', ''latitude'', ''longitude'', ''image_url''] df"

text \<open>
  What the run is given: the credential, what \<open>pd.read_excel\<close> returns or raises, the lookup
  service and the database driver.
\<close>

record environment =
  KEY :: api_key
  read_excel :: "fault + data_frame"
  lookup_service :: service
  postgres :: database

definition main :: "environment \<Rightarrow> (fault + unit) \<times> world" where
  "main env =
     (case read_excel env of
        Inl f \<Rightarrow> (Inl f, \<lparr>requests = [], files = [], appended = []\<rparr>)
      | Inr data_frame \<Rightarrow>
          (case alamat_parameter data_frame of
             Inl f \<Rightarrow> (Inl f, \<lparr>requests = [], files = [], appended = []\<rparr>)
           | Inr ap \<Rightarrow>
               (case enrich (lookup_service env) (KEY env)
                       (blank_columns (setitem data_frame ''alamat_parameter'' ap)) [] of
                  (enriched, log) \<Rightarrow>
                    persist (postgres env) enriched \<lparr>requests = log, files = [], appended = []\<rparr>)))"

subsection \<open>Notions for stating the properties\<close>

text \<open>A candidate that the scan passes over: it has types, and the classifier rejects them.\<close>

definition disqualified :: "candidate \<Rightarrow> bool" where
  "disqualified c =
     (case c_types c of None \<Rightarrow> False | Some store_type \<Rightarrow> \<not> check_type_in_response store_type)"

text \<open>
  A response with no qualifying candidate: its status is not 200, or its payload has a
  candidate list in which every candidate is disqualified.
\<close>

definition no_qualifying_candidate :: "find_json response \<Rightarrow> bool" where
  "no_qualifying_candidate response =
     (status_code response \<noteq> 200 \<or>
      (case json response of
         None \<Rightarrow> False
       | Some response_json \<Rightarrow>
           (case j_candidates response_json of
              None \<Rightarrow> False
            | Some cs \<Rightarrow> list_all disqualified cs)))"

text \<open>
  The three requests of the retry ladder, for a row whose derived query is \<open>ap\<close>, whose name
  and city are the strings \<open>n\<close> and \<open>c\<close> and whose address is \<open>a\<close>.
\<close>

definition ladder :: "cell \<Rightarrow> string \<Rightarrow> string \<Rightarrow> cell \<Rightarrow> api_key \<Rightarrow> request list" where
  "ladder ap n c a api_key =
     [FindPlaceFromText ap api_key,
      FindPlaceFromText (Text (n @ '', '' @ c)) api_key,
      FindPlaceFromText a api_key]"

text \<open>The fields that the pipeline fills, in the order of its stages.\<close>

definition enriched_labels :: "string list" where
  "enriched_labels = [''place_id'', ''map_url'', ''latitude'', ''longitude'', ''image_url'']"

text \<open>The frame and the log when the loop reaches the row of index \<open>i\<close>.\<close>

definition state_before ::
  "service \<Rightarrow> api_key \<Rightarrow> data_frame \<Rightarrow> request list \<Rightarrow> nat \<Rightarrow> data_frame \<times> request list" where
  "state_before svc api_key df log i =
     fold (process_row svc api_key) (take i (iterrows df)) (df, log)"

text \<open>The frame with the first fields of row \<open>i\<close> assigned, as many as there are values.\<close>

definition assigned :: "data_frame \<Rightarrow> nat \<Rightarrow> string list \<Rightarrow> data_frame" where
  "assigned df i vals =
     fold (\<lambda>(label, v) d. at_set d i label (Text v)) (zip enriched_labels vals) df"

subsection \<open>Example runs\<close>

text \<open>One provider, as the table holds it when the loop starts.\<close>

definition klinik :: data_frame where
  "klinik =
     \<lparr>nrows = 1,
      columns =
        [(''id'', [Other ''1'']),
         (''province'', [Text ''DKI Jakarta'']),
         (''city'', [Text ''Jakarta'']),
         (''name'', [Text ''Klinik Sehat'']),
         (''address'', [Text ''Jl. Mawar 1''])]\<rparr>"

text \<open>The same provider with an empty address cell.\<close>

definition klinik_no_address :: data_frame where
  "klinik_no_address =
     \<lparr>nrows = 1,
      columns =
        [(''id'', [Other ''1'']),
         (''province'', [Text ''DKI Jakarta'']),
         (''city'', [Text ''Jakarta'']),
         (''name'', [Text ''Klinik Sehat'']),
         (''address'', [Missing])]\<rparr>"

definition klinik_row :: row where
  "klinik_row =
     [(''id'', Other ''1''),
      (''province'', Text ''DKI Jakarta''),
      (''city'', Text ''Jakarta''),
      (''name'', Text ''Klinik Sehat''),
      (''address'', Text ''Jl. Mawar 1''),
      (''alamat_parameter'', Text ''Klinik Sehat, Jl. Mawar 1, Jakarta''),
      (''place_id'', Text []),
      (''map_url'', Text []),
      (''latitude'', Text []),
      (''longitude'', Text []),
      (''image_url'', Text [])]"

text \<open>The table of this provider when the loop starts: the derived query and the empty fields.\<close>

definition klinik_table :: data_frame where
  "klinik_table =
     blank_columns (setitem klinik ''alamat_parameter''
       [Text ''Klinik Sehat, Jl. Mawar 1, Jakarta''])"

definition ok :: "'a \<Rightarrow> 'a response" where
  "ok payload = \<lparr>status_code = 200, json = Some payload, url = ''https://maps.example/''\<rparr>"

text \<open>
  A service that answers every text query with a shop and a clinic, every detail request with
  a full record and every photo request with its URL.
\<close>

definition svc_found :: service where
  "svc_found =
     \<lparr>findplacefromtext = (\<lambda>log v k.
        Inr (ok \<lparr>j_candidates = Some
          [\<lparr>c_place_id = Some ''shop1'', c_types = Some [''store'', ''dentist_office'']\<rparr>,
           \<lparr>c_place_id = Some ''clinic2'', c_types = Some [''point_of_interest'', ''health'']\<rparr>,
           \<lparr>c_place_id = Some ''clinic3'', c_types = Some [''hospital'']\<rparr>]\<rparr>)),
      details = (\<lambda>log p k.
        Inr (ok \<lparr>d_result = Some
          \<lparr>r_url = Some ''https://maps.example/?cid=2'',
           r_geometry = Some \<lparr>g_location = Some \<lparr>l_lat = Some ''-6.2'', l_lng = Some ''106.8''\<rparr>\<rparr>,
           r_photos = Some [\<lparr>p_photo_reference = Some ''abc''\<rparr>]\<rparr>\<rparr>)),
      photo_endpoint = (\<lambda>log ref k.
        Inr \<lparr>status_code = 200, json = None,
             url = ''https://maps.example/photo?maxwidth=400&photo_reference='' @ ref\<rparr>)\<rparr>"

text \<open>The same service when the detail request times out.\<close>

definition svc_detail_timeout :: service where
  "svc_detail_timeout = svc_found\<lparr>details := (\<lambda>log p k. Inl RequestException)\<rparr>"

text \<open>The same service when the photo request times out.\<close>

definition svc_photo_timeout :: service where
  "svc_photo_timeout = svc_found\<lparr>photo_endpoint := (\<lambda>log ref k. Inl RequestException)\<rparr>"

text \<open>The same service when the place has no photo: the list of photos is empty.\<close>

definition svc_no_photo :: service where
  "svc_no_photo = svc_found\<lparr>details := (\<lambda>log p k.
        Inr (ok \<lparr>d_result = Some
          \<lparr>r_url = Some ''https://maps.example/?cid=2'',
           r_geometry = Some \<lparr>g_location = Some \<lparr>l_lat = Some ''-6.2'', l_lng = Some ''106.8''\<rparr>\<rparr>,
           r_photos = Some []\<rparr>\<rparr>))\<rparr>"

text \<open>
  A service that finds only shops: the first answer has status 200 and a shop, the later
  ones have status 500; a detail request gets a payload without \<open>result\<close>.
\<close>

definition svc_shops :: service where
  "svc_shops =
     \<lparr>findplacefromtext = (\<lambda>log v k.
        if log = [] then
          Inr (ok \<lparr>j_candidates = Some
            [\<lparr>c_place_id = Some ''shop1'', c_types = Some [''store'', ''dentist_office'']\<rparr>]\<rparr>)
        else Inr \<lparr>status_code = 500, json = None, url = ''https://maps.example/''\<rparr>),
      details = (\<lambda>log p k. Inr (ok \<lparr>d_result = None\<rparr>)),
      photo_endpoint = (\<lambda>log ref k. Inl RequestException)\<rparr>"

text \<open>A service that cannot be reached: every request raises.\<close>

definition svc_down :: service where
  "svc_down =
     \<lparr>findplacefromtext = (\<lambda>log v k. Inl RequestException),
      details = (\<lambda>log p k. Inl RequestException),
      photo_endpoint = (\<lambda>log ref k. Inl RequestException)\<rparr>"

text \<open>A database that works, and one whose server cannot be reached.\<close>

definition db_up :: database where
  "db_up = \<lparr>connect = None, cursor = None, check_table_exits = None, insert_data = None\<rparr>"

definition db_unreachable :: database where
  "db_unreachable = db_up\<lparr>connect := Some DatabaseError\<rparr>"

text \<open>A run of the script on the one-provider table, with credential \<open>K\<close>.\<close>

definition run :: "service \<Rightarrow> database \<Rightarrow> environment" where
  "run svc db = \<lparr>KEY = Some ''K'', read_excel = Inr klinik, lookup_service = svc, postgres = db\<rparr>"

text \<open>
  Two providers, the table that the loop starts with for them, and a service whose first
  request fails (a timeout) and which answers every later request as \<open>svc_found\<close> does.
\<close>

definition providers :: data_frame where
  "providers =
     \<lparr>nrows = 2,
      columns =
        [(''id'', [Other ''1'', Other ''2'']),
         (''province'', [Text ''Jawa Barat'', Text ''DKI Jakarta'']),
         (''city'', [Text ''Bandung'', Text ''Jakarta'']),
         (''name'', [Text ''Apotek Sejahtera'', Text ''Klinik Sehat'']),
         (''address'', [Text ''Jl. Melati 2'', Text ''Jl. Mawar 1''])]\<rparr>"

definition providers_table :: data_frame where
  "providers_table =
     blank_columns (setitem providers ''alamat_parameter''
       [Text ''Apotek Sejahtera, Jl. Melati 2, Bandung'',
        Text ''Klinik Sehat, Jl. Mawar 1, Jakarta''])"

definition svc_first_request_fails :: service where
  "svc_first_request_fails =
     svc_found\<lparr>findplacefromtext := (\<lambda>log v k.
        if log = [] then Inl RequestException else findplacefromtext svc_found log v k)\<rparr>"

text \<open>A run of the script on a given table, with credential \<open>K\<close>.\<close>

definition run_on :: "data_frame \<Rightarrow> service \<Rightarrow> database \<Rightarrow> environment" where
  "run_on table svc db =
     \<lparr>KEY = Some ''K'', read_excel = Inr table, lookup_service = svc, postgres = db\<rparr>"

section \<open>Properties\<close>

subsection \<open>Type classifier\<close>

lemma check_type_in_response_iff:
  "check_type_in_response store_type \<longleftrightarrow> set type_options \<inter> set store_type \<noteq> {}"
  by (auto simp: check_type_in_response_def list_ex_iff)

text \<open>
  C1, as stated, fails: the label \<open>dentist_office\<close> contains \<open>dentist\<close> as a substring, so the
  classifier of the specification accepts it, but the code compares whole labels and
  rejects it.
\<close>

theorem C1_substring_counterexample:
  "spec_substring_classifier [''dentist_office''] \<and> \<not> check_type_in_response [''dentist_office'']"
  by (simp add: spec_substring_classifier_def check_type_in_response_def type_options_def)

text \<open>
  C1, amended: the classifier returns true iff some label of the collection is equal to one
  of \<open>health\<close>, \<open>hospital\<close>, \<open>pharmacy\<close>, \<open>dentist\<close>; it returns false for the empty collection.
\<close>

theorem C1_classifier_exact_membership:
  "(check_type_in_response store_type \<longleftrightarrow>
      set store_type \<inter> {''health'', ''hospital'', ''pharmacy'', ''dentist''} \<noteq> {})
   \<and> \<not> check_type_in_response []"
  by (auto simp: check_type_in_response_def type_options_def)

theorem C1_classifier_exact_membership_witness:
  "check_type_in_response [''store'', ''pharmacy''] \<and> \<not> check_type_in_response [''pharmacy_store'']
   \<and> \<not> check_type_in_response []"
  using C1_classifier_exact_membership [of "[''store'', ''pharmacy'']"]
        C1_classifier_exact_membership [of "[''pharmacy_store'']"]
  by simp

subsection \<open>Candidate resolver\<close>

declare while_loop.simps [simp del]

lemma for_candidates_none:
  "list_all (\<lambda>c. case c_types c of None \<Rightarrow> False | Some ts \<Rightarrow> \<not> check_type_in_response ts) cs
   \<Longrightarrow> for_candidates cs place_id = Inr place_id"
  by (induction cs) (auto split: option.splits)

lemma for_candidates_first:
  "list_all (\<lambda>c. case c_types c of None \<Rightarrow> False | Some ts \<Rightarrow> \<not> check_type_in_response ts) pre
   \<Longrightarrow> c_types c = Some ts \<Longrightarrow> check_type_in_response ts \<Longrightarrow> c_place_id c = Some p
   \<Longrightarrow> for_candidates (pre @ c # post) place_id = Inr (Some p)"
  by (induction pre) (auto split: option.splits)

lemma while_loop_exit:
  "place_id \<noteq> None \<or> \<not> retry_count < max_retries
   \<Longrightarrow> while_loop svc row_value api_key place_id retry_count log = (Inr place_id, log)"
  by (subst while_loop.simps) auto

lemma while_loop_step:
  "retry_count < max_retries \<Longrightarrow> query_value row_value retry_count = Inr (Some v)
   \<Longrightarrow> while_loop svc row_value api_key None retry_count log =
       (case findplacefromtext svc log v api_key of
          Inl f \<Rightarrow> (Inl f, log @ [FindPlaceFromText v api_key])
        | Inr response \<Rightarrow>
            if status_code response = 200 then
              (case scan_response response None of
                 Inl f \<Rightarrow> (Inl f, log @ [FindPlaceFromText v api_key])
               | Inr place_id' \<Rightarrow>
                   while_loop svc row_value api_key place_id' (retry_count + 1)
                     (log @ [FindPlaceFromText v api_key]))
            else while_loop svc row_value api_key None (retry_count + 1)
                   (log @ [FindPlaceFromText v api_key]))"
  by (subst while_loop.simps) (simp add: get_place_api_def split: sum.splits)

lemma query_value_cases:
  "query_value row_value retry_count = Inr None \<Longrightarrow> 3 \<le> retry_count"
  by (auto simp: query_value_def split: if_splits sum.splits)

lemma while_loop_cases:
  assumes "retry_count < max_retries"
  shows "snd (while_loop svc row_value api_key None retry_count log) = log
     \<or> (\<exists>v. snd (while_loop svc row_value api_key None retry_count log)
              = log @ [FindPlaceFromText v api_key]
           \<or> (\<exists>place_id'. while_loop svc row_value api_key None retry_count log
                = while_loop svc row_value api_key place_id' (retry_count + 1)
                    (log @ [FindPlaceFromText v api_key])))"
proof (cases "query_value row_value retry_count")
  case (Inl f)
  then show ?thesis using assms by (subst while_loop.simps) simp
next
  case (Inr val)
  show ?thesis
  proof (cases val)
    case None
    then show ?thesis using Inr assms query_value_cases[of row_value retry_count]
      by (simp add: max_retries_def)
  next
    case (Some v)
    show ?thesis
      using while_loop_step[OF assms, of row_value v svc api_key log] Inr Some
      by (auto split: sum.splits if_splits)
  qed
qed

lemma while_loop_log:
  "\<exists>reqs. snd (while_loop svc row_value api_key place_id retry_count log) = log @ reqs
     \<and> length reqs \<le> max_retries - retry_count"
proof (induction "max_retries - retry_count" arbitrary: place_id retry_count log)
  case 0
  then show ?case using while_loop_exit[of place_id retry_count] by auto
next
  case (Suc n)
  show ?case
  proof (cases "place_id = None")
    case False
    then show ?thesis using while_loop_exit[of place_id retry_count] by auto
  next
    case True
    have lt: "retry_count < max_retries" using Suc.hyps(2) by simp
    have n: "n = max_retries - (retry_count + 1)" using Suc.hyps(2) by simp
    from while_loop_cases[OF lt, of svc row_value api_key log]
    consider (a) "snd (while_loop svc row_value api_key None retry_count log) = log"
      | (b) v where "snd (while_loop svc row_value api_key None retry_count log)
              = log @ [FindPlaceFromText v api_key]"
      | (c) v place_id' where "while_loop svc row_value api_key None retry_count log
                = while_loop svc row_value api_key place_id' (retry_count + 1)
                    (log @ [FindPlaceFromText v api_key])"
      by blast
    then show ?thesis
    proof cases
      case a
      then show ?thesis using True by simp
    next
      case b
      then show ?thesis using True lt by simp
    next
      case c
      from Suc.hyps(1)[OF n, of place_id' "log @ [FindPlaceFromText v api_key]"]
      obtain reqs where r: "snd (while_loop svc row_value api_key place_id' (retry_count + 1)
            (log @ [FindPlaceFromText v api_key])) = (log @ [FindPlaceFromText v api_key]) @ reqs"
          "length reqs \<le> max_retries - (retry_count + 1)" by blast
      show ?thesis
        using r c True lt
        by (intro exI[of _ "FindPlaceFromText v api_key # reqs"]) simp
    qed
  qed
qed


lemma query_value_row:
  assumes "map_of row_value ''alamat_parameter'' = Some ap"
    and "map_of row_value ''name'' = Some (Text n)"
    and "map_of row_value ''city'' = Some (Text c)"
    and "map_of row_value ''address'' = Some a"
  shows "query_value row_value 0 = Inr (Some ap)"
    and "query_value row_value 1 = Inr (Some (Text (n @ '', '' @ c)))"
    and "query_value row_value 2 = Inr (Some a)"
  using assms by (simp_all add: query_value_def getitem_def)

lemma query_value_ladder:
  assumes "map_of row_value ''alamat_parameter'' = Some ap"
    and "map_of row_value ''name'' = Some (Text n)"
    and "map_of row_value ''city'' = Some (Text c)"
    and "map_of row_value ''address'' = Some a"
    and "i < 3"
  shows "\<exists>v. query_value row_value i = Inr (Some v)
           \<and> ladder ap n c a api_key ! i = FindPlaceFromText v api_key"
proof -
  from \<open>i < 3\<close> consider "i = 0" | "i = 1" | "i = 2" by linarith
  then show ?thesis
    using query_value_row[OF assms(1-4)] by cases (simp_all add: ladder_def)
qed

lemma scan_response_first:
  assumes "json response = Some \<lparr>j_candidates = Some (pre @ cand # post)\<rparr>"
    and "list_all disqualified pre"
    and "c_types cand = Some store_type" and "check_type_in_response store_type"
    and "c_place_id cand = Some p"
  shows "scan_response response place_id = Inr (Some p)"
proof -
  have "list_all (\<lambda>c. case c_types c of None \<Rightarrow> False
                 | Some ts \<Rightarrow> \<not> check_type_in_response ts) pre"
    using assms(2) by (simp add: disqualified_def[abs_def])
  from for_candidates_first[OF this assms(3-5)] show ?thesis
    using assms(1) by (simp add: scan_response_def)
qed

lemma scan_response_none:
  assumes "status_code response = 200" and "no_qualifying_candidate response"
  shows "scan_response response place_id = Inr place_id"
proof -
  from assms obtain rj cs where j: "json response = Some rj" "j_candidates rj = Some cs"
      "list_all disqualified cs"
    by (auto simp: no_qualifying_candidate_def split: option.splits)
  have "list_all (\<lambda>c. case c_types c of None \<Rightarrow> False
                 | Some ts \<Rightarrow> \<not> check_type_in_response ts) cs"
    using j(3) by (simp add: disqualified_def[abs_def])
  from for_candidates_none[OF this] show ?thesis
    using j by (simp add: scan_response_def)
qed

text \<open>One attempt that accepts a candidate ends the loop.\<close>

lemma while_loop_accept:
  assumes "retry_count < max_retries" and "query_value row_value retry_count = Inr (Some v)"
    and "findplacefromtext svc log v api_key = Inr response"
    and "status_code response = 200"
    and "scan_response response None = Inr (Some p)"
  shows "while_loop svc row_value api_key None retry_count log
           = (Inr (Some p), log @ [FindPlaceFromText v api_key])"
  using while_loop_step[OF assms(1,2), of svc api_key log] assms(3-5)
  by (simp add: while_loop_exit)

text \<open>One attempt whose response has no qualifying candidate moves to the next attempt.\<close>

lemma while_loop_advance:
  assumes "retry_count < max_retries" and "query_value row_value retry_count = Inr (Some v)"
    and "findplacefromtext svc log v api_key = Inr response"
    and "no_qualifying_candidate response"
  shows "while_loop svc row_value api_key None retry_count log
           = while_loop svc row_value api_key None (retry_count + 1)
               (log @ [FindPlaceFromText v api_key])"
  using while_loop_step[OF assms(1,2), of svc api_key log] assms(3)
    scan_response_none[OF _ assms(4), of None]
  by (cases "status_code response = 200") simp_all

text \<open>One attempt whose call raises, or whose payload is malformed, ends the loop with the fault.\<close>

lemma while_loop_raise:
  assumes "retry_count < max_retries" and "query_value row_value retry_count = Inr (Some v)"
    and "findplacefromtext svc log v api_key = Inl f"
  shows "while_loop svc row_value api_key None retry_count log
           = (Inl f, log @ [FindPlaceFromText v api_key])"
  using while_loop_step[OF assms(1,2), of svc api_key log] assms(3) by simp

lemma while_loop_malformed:
  assumes "retry_count < max_retries" and "query_value row_value retry_count = Inr (Some v)"
    and "findplacefromtext svc log v api_key = Inr response"
    and "status_code response = 200"
    and "scan_response response None = Inl f"
  shows "while_loop svc row_value api_key None retry_count log
           = (Inl f, log @ [FindPlaceFromText v api_key])"
  using while_loop_step[OF assms(1,2), of svc api_key log] assms(3-5) by simp

lemma while_loop_ladder:
  assumes "map_of row_value ''alamat_parameter'' = Some ap"
    and "map_of row_value ''name'' = Some (Text n)"
    and "map_of row_value ''city'' = Some (Text c)"
    and "map_of row_value ''address'' = Some a"
  shows "\<exists>k. k \<le> 3 - retry_count \<and> snd (while_loop svc row_value api_key place_id retry_count log)
            = log @ take k (drop retry_count (ladder ap n c a api_key))"
proof (induction "max_retries - retry_count" arbitrary: place_id retry_count log)
  case 0
  then show ?case using while_loop_exit[of place_id retry_count]
    by (intro exI[of _ 0]) (auto simp: max_retries_def)
next
  case (Suc m)
  have lt: "retry_count < max_retries" using Suc.hyps(2) by simp
  then have lt3: "retry_count < 3" by (simp add: max_retries_def)
  show ?case
  proof (cases "place_id = None")
    case False
    then show ?thesis using while_loop_exit[of place_id retry_count] lt3
      by (intro exI[of _ 0]) auto
  next
    case True
    have m: "m = max_retries - (retry_count + 1)" using Suc.hyps(2) by simp
    from query_value_ladder[OF assms lt3, of api_key]
    obtain v where v: "query_value row_value retry_count = Inr (Some v)"
      "ladder ap n c a api_key ! retry_count = FindPlaceFromText v api_key" by blast
    have len: "length (ladder ap n c a api_key) = 3" by (simp add: ladder_def)
    have dr: "drop retry_count (ladder ap n c a api_key)
        = FindPlaceFromText v api_key # drop (retry_count + 1) (ladder ap n c a api_key)"
      using lt3 len v(2) by (metis Cons_nth_drop_Suc Suc_eq_plus1)
    let ?q = "FindPlaceFromText v api_key"
    have one: "log @ [?q] = log @ take 1 (drop retry_count (ladder ap n c a api_key))"
      using dr by simp
    from while_loop_cases[OF lt, of svc row_value api_key log]
    consider (a) "snd (while_loop svc row_value api_key None retry_count log) = log"
      | (b) "snd (while_loop svc row_value api_key None retry_count log) = log @ [?q]"
      | (c) place_id' where "while_loop svc row_value api_key None retry_count log
                = while_loop svc row_value api_key place_id' (retry_count + 1) (log @ [?q])"
      using while_loop_step[OF lt v(1), of svc api_key log]
      by (auto split: sum.splits if_splits)
    then show ?thesis
    proof cases
      case a
      then show ?thesis using True lt3 by (intro exI[of _ 0]) simp
    next
      case b
      then show ?thesis using True lt3 one by (intro exI[of _ 1]) simp
    next
      case c
      from Suc.hyps(1)[OF m, of place_id' "log @ [?q]"]
      obtain k where k: "k \<le> 3 - (retry_count + 1)"
        "snd (while_loop svc row_value api_key place_id' (retry_count + 1) (log @ [?q]))
           = (log @ [?q]) @ take k (drop (retry_count + 1) (ladder ap n c a api_key))" by blast
      show ?thesis
        using k c True dr lt3 by (intro exI[of _ "Suc k"]) simp
    qed
  qed
qed


lemma alamat_parameter_nth:
  assumes "map_of (columns df) ''name'' = Some names"
    and "map_of (columns df) ''address'' = Some addresses"
    and "map_of (columns df) ''city'' = Some cities"
    and "j < length names" and "j < length addresses" and "j < length cities"
  shows "\<exists>aps. alamat_parameter df = Inr aps \<and>
           aps ! j = str_add (str_add (str_add (str_add (astype_str (names ! j)) (Text '', ''))
                       (astype_str (addresses ! j))) (Text '', '')) (astype_str (cities ! j))"
  using assms by (simp add: alamat_parameter_def getitem_def)

text \<open>
  C2: for every row the resolver issues at most three requests. For a row with its derived
  query \<open>ap\<close>, text name \<open>n\<close>, text city \<open>c\<close> and address \<open>a\<close>, the requests are the first
  \<open>k \<le> 3\<close> of the ladder \<open>ap\<close>, \<open>n + ", " + c\<close>, \<open>a\<close>, in this order; an attempt whose
  response has status 200 and whose first candidate with accepted types, in list order, has
  identifier \<open>p\<close> makes the loop return \<open>p\<close> with no further request, so that an acceptance
  at the first attempt leaves exactly one request. The derived query of row \<open>j\<close> is computed
  before the loop: when name, address and city of the row have the strings \<open>sn\<close>, \<open>sa\<close> and
  \<open>sc\<close> it is these joined by \<open>", "\<close>, and when one of the three cells is missing it is the
  missing value.
\<close>

theorem C2_resolver_ladder:
  "(\<exists>reqs. snd (get_place_id_from_text_query svc row_value api_key log) = log @ reqs
            \<and> length reqs \<le> 3)
   \<and> (map_of row_value ''alamat_parameter'' = Some ap
        \<and> map_of row_value ''name'' = Some (Text n)
        \<and> map_of row_value ''city'' = Some (Text c)
        \<and> map_of row_value ''address'' = Some a
      \<longrightarrow>
        (\<exists>k\<le>3. snd (get_place_id_from_text_query svc row_value api_key log)
                  = log @ take k (ladder ap n c a api_key))
        \<and> (i < 3 \<and> ladder ap n c a api_key ! i = FindPlaceFromText v api_key
             \<and> findplacefromtext svc lg v api_key = Inr response
             \<and> status_code response = 200
             \<and> json response = Some \<lparr>j_candidates = Some (pre @ cand # post)\<rparr>
             \<and> list_all disqualified pre
             \<and> c_types cand = Some store_type \<and> check_type_in_response store_type
             \<and> c_place_id cand = Some p
           \<longrightarrow> while_loop svc row_value api_key None i lg
                 = (Inr (Some p), lg @ [FindPlaceFromText v api_key]))
        \<and> (findplacefromtext svc log ap api_key = Inr response
             \<and> status_code response = 200
             \<and> json response = Some \<lparr>j_candidates = Some (pre @ cand # post)\<rparr>
             \<and> list_all disqualified pre
             \<and> c_types cand = Some store_type \<and> check_type_in_response store_type
             \<and> c_place_id cand = Some p
           \<longrightarrow> get_place_id_from_text_query svc row_value api_key log
                 = (Inr (Some p), log @ [FindPlaceFromText ap api_key])))
   \<and> (map_of (columns df) ''name'' = Some names
        \<and> map_of (columns df) ''address'' = Some addresses
        \<and> map_of (columns df) ''city'' = Some cities
        \<and> j < length names \<and> j < length addresses \<and> j < length cities
      \<longrightarrow> (\<exists>aps. alamat_parameter df = Inr aps
             \<and> (astype_str (names ! j) = Text sn \<and> astype_str (addresses ! j) = Text sa
                  \<and> astype_str (cities ! j) = Text sc
                \<longrightarrow> aps ! j = Text (sn @ '', '' @ sa @ '', '' @ sc))
             \<and> (names ! j = Missing \<or> addresses ! j = Missing \<or> cities ! j = Missing
                \<longrightarrow> aps ! j = Missing)))"
proof (intro conjI impI)
  show "\<exists>reqs. snd (get_place_id_from_text_query svc row_value api_key log) = log @ reqs
            \<and> length reqs \<le> 3"
    using while_loop_log[of svc row_value api_key None 0 log]
    by (simp add: get_place_id_from_text_query_def max_retries_def)
next
  assume "map_of row_value ''alamat_parameter'' = Some ap
        \<and> map_of row_value ''name'' = Some (Text n)
        \<and> map_of row_value ''city'' = Some (Text c)
        \<and> map_of row_value ''address'' = Some a"
  then have row: "map_of row_value ''alamat_parameter'' = Some ap"
    "map_of row_value ''name'' = Some (Text n)"
    "map_of row_value ''city'' = Some (Text c)"
    "map_of row_value ''address'' = Some a" by simp_all
  show "\<exists>k\<le>3. snd (get_place_id_from_text_query svc row_value api_key log)
               = log @ take k (ladder ap n c a api_key)"
    using while_loop_ladder[OF row, of 0 svc api_key None log]
    by (simp add: get_place_id_from_text_query_def)
next
  assume "map_of row_value ''alamat_parameter'' = Some ap
        \<and> map_of row_value ''name'' = Some (Text n)
        \<and> map_of row_value ''city'' = Some (Text c)
        \<and> map_of row_value ''address'' = Some a"
  then have row: "map_of row_value ''alamat_parameter'' = Some ap"
    "map_of row_value ''name'' = Some (Text n)"
    "map_of row_value ''city'' = Some (Text c)"
    "map_of row_value ''address'' = Some a" by simp_all
  assume h: "i < 3 \<and> ladder ap n c a api_key ! i = FindPlaceFromText v api_key
          \<and> findplacefromtext svc lg v api_key = Inr response
          \<and> status_code response = 200
          \<and> json response = Some \<lparr>j_candidates = Some (pre @ cand # post)\<rparr>
          \<and> list_all disqualified pre
          \<and> c_types cand = Some store_type \<and> check_type_in_response store_type
          \<and> c_place_id cand = Some p"
  then have i: "i < 3" by simp
  from query_value_ladder[OF row i, of api_key] h
  have q: "query_value row_value i = Inr (Some v)" by auto
  have s: "scan_response response None = Inr (Some p)"
    using h by (intro scan_response_first[of response pre cand post store_type p]) simp_all
  show "while_loop svc row_value api_key None i lg
          = (Inr (Some p), lg @ [FindPlaceFromText v api_key])"
    using h i by (intro while_loop_accept[OF _ q _ _ s]) (simp_all add: max_retries_def)
next
  assume "map_of row_value ''alamat_parameter'' = Some ap
        \<and> map_of row_value ''name'' = Some (Text n)
        \<and> map_of row_value ''city'' = Some (Text c)
        \<and> map_of row_value ''address'' = Some a"
  then have row: "map_of row_value ''alamat_parameter'' = Some ap"
    "map_of row_value ''name'' = Some (Text n)"
    "map_of row_value ''city'' = Some (Text c)"
    "map_of row_value ''address'' = Some a" by simp_all
  assume h: "findplacefromtext svc log ap api_key = Inr response
          \<and> status_code response = 200
          \<and> json response = Some \<lparr>j_candidates = Some (pre @ cand # post)\<rparr>
          \<and> list_all disqualified pre
          \<and> c_types cand = Some store_type \<and> check_type_in_response store_type
          \<and> c_place_id cand = Some p"
  have q: "query_value row_value 0 = Inr (Some ap)" by (rule query_value_row(1)[OF row])
  have s: "scan_response response None = Inr (Some p)"
    using h by (intro scan_response_first[of response pre cand post store_type p]) simp_all
  show "get_place_id_from_text_query svc row_value api_key log
          = (Inr (Some p), log @ [FindPlaceFromText ap api_key])"
    unfolding get_place_id_from_text_query_def
    using h by (intro while_loop_accept[OF _ q _ _ s]) (simp_all add: max_retries_def)
next
  assume "map_of (columns df) ''name'' = Some names
          \<and> map_of (columns df) ''address'' = Some addresses
          \<and> map_of (columns df) ''city'' = Some cities
          \<and> j < length names \<and> j < length addresses \<and> j < length cities"
  then obtain aps where aps: "alamat_parameter df = Inr aps"
    "aps ! j = str_add (str_add (str_add (str_add (astype_str (names ! j)) (Text '', ''))
                 (astype_str (addresses ! j))) (Text '', '')) (astype_str (cities ! j))"
    using alamat_parameter_nth[of df names addresses cities j] by auto
  have "aps ! j = Text (sn @ '', '' @ sa @ '', '' @ sc)"
    if "astype_str (names ! j) = Text sn \<and> astype_str (addresses ! j) = Text sa
          \<and> astype_str (cities ! j) = Text sc"
    using that aps(2) by simp
  moreover have "aps ! j = Missing"
    if "names ! j = Missing \<or> addresses ! j = Missing \<or> cities ! j = Missing"
    using that aps(2)
    by (cases "astype_str (names ! j)"; cases "astype_str (addresses ! j)";
        cases "astype_str (cities ! j)") auto
  ultimately show "\<exists>aps. alamat_parameter df = Inr aps
             \<and> (astype_str (names ! j) = Text sn \<and> astype_str (addresses ! j) = Text sa
                  \<and> astype_str (cities ! j) = Text sc
                \<longrightarrow> aps ! j = Text (sn @ '', '' @ sa @ '', '' @ sc))
             \<and> (names ! j = Missing \<or> addresses ! j = Missing \<or> cities ! j = Missing
                \<longrightarrow> aps ! j = Missing)"
    using aps(1) by blast
qed

theorem C2_resolver_ladder_witness:
  "get_place_id_from_text_query svc_found klinik_row (Some ''K'') []
     = (Inr (Some ''clinic2''),
        [FindPlaceFromText (Text ''Klinik Sehat, Jl. Mawar 1, Jakarta'') (Some ''K'')])
   \<and> while_loop svc_found klinik_row (Some ''K'') None 1
        [FindPlaceFromText (Text ''Klinik Sehat, Jl. Mawar 1, Jakarta'') (Some ''K'')]
     = (Inr (Some ''clinic2''),
        [FindPlaceFromText (Text ''Klinik Sehat, Jl. Mawar 1, Jakarta'') (Some ''K''),
         FindPlaceFromText (Text ''Klinik Sehat, Jakarta'') (Some ''K'')])
   \<and> alamat_parameter klinik = Inr [Text ''Klinik Sehat, Jl. Mawar 1, Jakarta'']
   \<and> alamat_parameter klinik_no_address = Inr [Missing]"
  using
    C2_resolver_ladder [of svc_found klinik_row "Some ''K''" "[]"
      "Text ''Klinik Sehat, Jl. Mawar 1, Jakarta''"
      "''Klinik Sehat''" "''Jakarta''" "Text ''Jl. Mawar 1''"
      1 "Text ''Klinik Sehat, Jakarta''"
      "[FindPlaceFromText (Text ''Klinik Sehat, Jl. Mawar 1, Jakarta'') (Some ''K'')]"
      "ok \<lparr>j_candidates = Some
          [\<lparr>c_place_id = Some ''shop1'', c_types = Some [''store'', ''dentist_office'']\<rparr>,
           \<lparr>c_place_id = Some ''clinic2'', c_types = Some [''point_of_interest'', ''health'']\<rparr>,
           \<lparr>c_place_id = Some ''clinic3'', c_types = Some [''hospital'']\<rparr>]\<rparr>"
      "[\<lparr>c_place_id = Some ''shop1'', c_types = Some [''store'', ''dentist_office'']\<rparr>]"
      "\<lparr>c_place_id = Some ''clinic2'', c_types = Some [''point_of_interest'', ''health'']\<rparr>"
      "[\<lparr>c_place_id = Some ''clinic3'', c_types = Some [''hospital'']\<rparr>]"
      "[''point_of_interest'', ''health'']" "''clinic2''"
      klinik "[Text ''Klinik Sehat'']" "[Text ''Jl. Mawar 1'']" "[Text ''Jakarta'']" 0
      "''Klinik Sehat''" "''Jl. Mawar 1''" "''Jakarta''"]
    C2_resolver_ladder [of svc_found klinik_row "Some ''K''" "[]"
      "Text ''Klinik Sehat, Jl. Mawar 1, Jakarta''"
      "''Klinik Sehat''" "''Jakarta''" "Text ''Jl. Mawar 1''"
      1 "Text ''Klinik Sehat, Jakarta''"
      "[FindPlaceFromText (Text ''Klinik Sehat, Jl. Mawar 1, Jakarta'') (Some ''K'')]"
      "ok \<lparr>j_candidates = Some
          [\<lparr>c_place_id = Some ''shop1'', c_types = Some [''store'', ''dentist_office'']\<rparr>,
           \<lparr>c_place_id = Some ''clinic2'', c_types = Some [''point_of_interest'', ''health'']\<rparr>,
           \<lparr>c_place_id = Some ''clinic3'', c_types = Some [''hospital'']\<rparr>]\<rparr>"
      "[\<lparr>c_place_id = Some ''shop1'', c_types = Some [''store'', ''dentist_office'']\<rparr>]"
      "\<lparr>c_place_id = Some ''clinic2'', c_types = Some [''point_of_interest'', ''health'']\<rparr>"
      "[\<lparr>c_place_id = Some ''clinic3'', c_types = Some [''hospital'']\<rparr>]"
      "[''point_of_interest'', ''health'']" "''clinic2''"
      klinik_no_address "[Text ''Klinik Sehat'']" "[Missing]" "[Text ''Jakarta'']" 0
      "''Klinik Sehat''" "[]" "''Jakarta''"]
  by (simp add: klinik_row_def klinik_def klinik_no_address_def svc_found_def ok_def ladder_def
      disqualified_def check_type_in_response_def type_options_def alamat_parameter_def
      getitem_def)

text \<open>
  C4, as stated, fails: when the lookup call raises (the service cannot be reached), the
  resolver does not move to the next attempt; the fault leaves the resolver after one
  request.
\<close>

theorem C4_network_fault_counterexample:
  "get_place_id_from_text_query svc_down klinik_row None []
     = (Inl RequestException,
        [FindPlaceFromText (Text ''Klinik Sehat, Jl. Mawar 1, Jakarta'') None])"
proof -
  have q: "query_value klinik_row 0 = Inr (Some (Text ''Klinik Sehat, Jl. Mawar 1, Jakarta''))"
    by (simp add: query_value_def getitem_def klinik_row_def)
  have r: "findplacefromtext svc_down [] (Text ''Klinik Sehat, Jl. Mawar 1, Jakarta'') None
             = Inl RequestException"
    by (simp add: svc_down_def)
  show ?thesis
    unfolding get_place_id_from_text_query_def
    using while_loop_raise[OF _ q r] by (simp add: max_retries_def)
qed

text \<open>
  C4, amended: within the resolver, a response whose status is not 200 is handled as a
  response with no qualifying candidate is, both move the loop to the next attempt; a lookup
  call that raises (network error, timeout) and a status-200 response whose payload is
  malformed (not JSON, or without \<open>candidates\<close>) end the loop and leave the resolver as a
  raised fault.
\<close>

theorem C4_only_status_advances:
  assumes "retry_count < 3" and "query_value row_value retry_count = Inr (Some v)"
  shows
    "(findplacefromtext svc log v api_key = Inr response \<and> status_code response \<noteq> 200
        \<longrightarrow> while_loop svc row_value api_key None retry_count log
              = while_loop svc row_value api_key None (retry_count + 1)
                  (log @ [FindPlaceFromText v api_key]))
     \<and> (findplacefromtext svc log v api_key = Inr response \<and> status_code response = 200
          \<and> json response = Some \<lparr>j_candidates = Some cs\<rparr> \<and> list_all disqualified cs
        \<longrightarrow> while_loop svc row_value api_key None retry_count log
              = while_loop svc row_value api_key None (retry_count + 1)
                  (log @ [FindPlaceFromText v api_key]))
     \<and> (findplacefromtext svc log v api_key = Inl f
        \<longrightarrow> while_loop svc row_value api_key None retry_count log
              = (Inl f, log @ [FindPlaceFromText v api_key]))
     \<and> (findplacefromtext svc log v api_key = Inr response \<and> status_code response = 200
          \<and> json response = None
        \<longrightarrow> while_loop svc row_value api_key None retry_count log
              = (Inl JSONDecodeError, log @ [FindPlaceFromText v api_key]))
     \<and> (findplacefromtext svc log v api_key = Inr response \<and> status_code response = 200
          \<and> json response = Some \<lparr>j_candidates = None\<rparr>
        \<longrightarrow> while_loop svc row_value api_key None retry_count log
              = (Inl (KeyError ''candidates''), log @ [FindPlaceFromText v api_key]))"
proof -
  have lt: "retry_count < max_retries" using assms(1) by (simp add: max_retries_def)
  show ?thesis
  proof (intro conjI impI)
    assume "findplacefromtext svc log v api_key = Inr response \<and> status_code response \<noteq> 200"
    then show "while_loop svc row_value api_key None retry_count log
              = while_loop svc row_value api_key None (retry_count + 1)
                  (log @ [FindPlaceFromText v api_key])"
      using while_loop_advance[OF lt assms(2), of svc log api_key response]
      by (simp add: no_qualifying_candidate_def)
  next
    assume "findplacefromtext svc log v api_key = Inr response \<and> status_code response = 200
          \<and> json response = Some \<lparr>j_candidates = Some cs\<rparr> \<and> list_all disqualified cs"
    then show "while_loop svc row_value api_key None retry_count log
              = while_loop svc row_value api_key None (retry_count + 1)
                  (log @ [FindPlaceFromText v api_key])"
      using while_loop_advance[OF lt assms(2), of svc log api_key response]
      by (simp add: no_qualifying_candidate_def)
  next
    assume "findplacefromtext svc log v api_key = Inl f"
    then show "while_loop svc row_value api_key None retry_count log
              = (Inl f, log @ [FindPlaceFromText v api_key])"
      by (rule while_loop_raise[OF lt assms(2)])
  next
    assume "findplacefromtext svc log v api_key = Inr response \<and> status_code response = 200
          \<and> json response = None"
    then show "while_loop svc row_value api_key None retry_count log
              = (Inl JSONDecodeError, log @ [FindPlaceFromText v api_key])"
      using while_loop_malformed[OF lt assms(2), of svc log api_key response JSONDecodeError]
      by (simp add: scan_response_def)
  next
    assume "findplacefromtext svc log v api_key = Inr response \<and> status_code response = 200
          \<and> json response = Some \<lparr>j_candidates = None\<rparr>"
    then show "while_loop svc row_value api_key None retry_count log
              = (Inl (KeyError ''candidates''), log @ [FindPlaceFromText v api_key])"
      using while_loop_malformed[OF lt assms(2), of svc log api_key response "KeyError ''candidates''"]
      by (simp add: scan_response_def)
  qed
qed

theorem C4_only_status_advances_witness:
  "while_loop svc_shops klinik_row None None 1
       [FindPlaceFromText (Text ''Klinik Sehat, Jl. Mawar 1, Jakarta'') None]
     = while_loop svc_shops klinik_row None None 2
         [FindPlaceFromText (Text ''Klinik Sehat, Jl. Mawar 1, Jakarta'') None,
          FindPlaceFromText (Text ''Klinik Sehat, Jakarta'') None]
   \<and> while_loop svc_shops klinik_row None None 0 []
     = while_loop svc_shops klinik_row None None 1
         [FindPlaceFromText (Text ''Klinik Sehat, Jl. Mawar 1, Jakarta'') None]
   \<and> while_loop svc_down klinik_row None None 2 []
     = (Inl RequestException, [FindPlaceFromText (Text ''Jl. Mawar 1'') None])
   \<and> while_loop (svc_down\<lparr>findplacefromtext :=
          (\<lambda>log v k. Inr \<lparr>status_code = 200, json = None, url = []\<rparr>)\<rparr>) klinik_row None None 2 []
     = (Inl JSONDecodeError, [FindPlaceFromText (Text ''Jl. Mawar 1'') None])
   \<and> while_loop (svc_down\<lparr>findplacefromtext :=
          (\<lambda>log v k. Inr (ok \<lparr>j_candidates = None\<rparr>))\<rparr>) klinik_row None None 2 []
     = (Inl (KeyError ''candidates''), [FindPlaceFromText (Text ''Jl. Mawar 1'') None])"
  using
    C4_only_status_advances [of 1 klinik_row "Text ''Klinik Sehat, Jakarta''" svc_shops
      "[FindPlaceFromText (Text ''Klinik Sehat, Jl. Mawar 1, Jakarta'') None]" None
      "\<lparr>status_code = 500, json = None, url = ''https://maps.example/''\<rparr>"]
    C4_only_status_advances [of 0 klinik_row "Text ''Klinik Sehat, Jl. Mawar 1, Jakarta''"
      svc_shops "[]" None
      "ok \<lparr>j_candidates = Some
            [\<lparr>c_place_id = Some ''shop1'', c_types = Some [''store'', ''dentist_office'']\<rparr>]\<rparr>"
      "[\<lparr>c_place_id = Some ''shop1'', c_types = Some [''store'', ''dentist_office'']\<rparr>]"]
    C4_only_status_advances [of 2 klinik_row "Text ''Jl. Mawar 1''" svc_down "[]" None _ _
      RequestException]
    C4_only_status_advances [of 2 klinik_row "Text ''Jl. Mawar 1''"
      "svc_down\<lparr>findplacefromtext :=
          (\<lambda>log v k. Inr \<lparr>status_code = 200, json = None, url = []\<rparr>)\<rparr>" "[]" None
      "\<lparr>status_code = 200, json = None, url = []\<rparr>"]
    C4_only_status_advances [of 2 klinik_row "Text ''Jl. Mawar 1''"
      "svc_down\<lparr>findplacefromtext := (\<lambda>log v k. Inr (ok \<lparr>j_candidates = None\<rparr>))\<rparr>" "[]" None
      "ok \<lparr>j_candidates = None\<rparr>"]
  by (simp add: klinik_row_def svc_shops_def svc_down_def ok_def query_value_def getitem_def
      disqualified_def check_type_in_response_def type_options_def numeral_2_eq_2)

subsection \<open>The table and the loop over its rows\<close>

lemma nrows_at_set [simp]: "nrows (at_set df i l v) = nrows df"
  by (simp add: at_set_def setitem_def)

lemma map_of_columns_setitem:
  "map_of (columns (setitem df l vs)) l' = (if l' = l then Some vs else map_of (columns df) l')"
  by (simp add: setitem_def update_conv')

lemma map_of_columns_at_set:
  "map_of (columns (at_set df i l v)) l' =
     (if l' = l then
        Some ((case map_of (columns df) l of
                 None \<Rightarrow> replicate (nrows df) Missing
               | Some vs \<Rightarrow> vs)[i := v])
      else map_of (columns df) l')"
  by (simp add: at_set_def map_of_columns_setitem)

lemma cell_at_at_set_other:
  "l' \<noteq> l \<or> (j \<noteq> i \<and> map_of (columns df) l \<noteq> None)
   \<Longrightarrow> cell_at (at_set df i l v) l' j = cell_at df l' j"
  by (auto simp: cell_at_def map_of_columns_at_set)

lemma cell_at_at_set_same:
  "cell_at df l i \<noteq> None \<Longrightarrow> cell_at (at_set df i l v) l i = Some v"
  by (auto simp: cell_at_def map_of_columns_at_set split: option.splits if_splits)

lemma column_at_set_keeps:
  "map_of (columns df) l' = Some vs
   \<Longrightarrow> \<exists>vs'. map_of (columns (at_set df i l v)) l' = Some vs' \<and> length vs' = length vs"
  by (auto simp: map_of_columns_at_set)

text \<open>A property kept by every assignment to a field is kept by a run of assignments.\<close>

lemma assigned_induct:
  assumes "P df"
    and "\<And>d l v. P d \<Longrightarrow> l \<in> set enriched_labels \<Longrightarrow> P (at_set d i l (Text v))"
  shows "P (assigned df i vals)"
proof -
  have "P d \<Longrightarrow> set ls \<subseteq> set enriched_labels
        \<Longrightarrow> P (fold (\<lambda>(label, v) d. at_set d i label (Text v)) (zip ls vals) d)" for ls d
  proof (induction ls arbitrary: vals d)
    case Nil
    then show ?case by simp
  next
    case (Cons l ls)
    show ?case
    proof (cases vals)
      case Nil
      then show ?thesis using Cons.prems by simp
    next
      case (Cons v vs)
      then show ?thesis using Cons.prems Cons.IH[of "at_set d i l (Text v)" vs] assms(2)
        by simp
    qed
  qed
  from this[OF assms(1), of enriched_labels] show ?thesis by (simp add: assigned_def)
qed

lemma assigned_simps:
  "assigned df i [] = df"
  "assigned df i [p] = at_set df i ''place_id'' (Text p)"
  "assigned df i [p, u] = at_set (at_set df i ''place_id'' (Text p)) i ''map_url'' (Text u)"
  "assigned df i [p, u, la] =
     at_set (at_set (at_set df i ''place_id'' (Text p)) i ''map_url'' (Text u)) i
       ''latitude'' (Text la)"
  "assigned df i [p, u, la, ln] =
     at_set (at_set (at_set (at_set df i ''place_id'' (Text p)) i ''map_url'' (Text u)) i
       ''latitude'' (Text la)) i ''longitude'' (Text ln)"
  "assigned df i [p, u, la, ln, im] =
     at_set (at_set (at_set (at_set (at_set df i ''place_id'' (Text p)) i ''map_url'' (Text u)) i
       ''latitude'' (Text la)) i ''longitude'' (Text ln)) i ''image_url'' (Text im)"
  by (simp_all add: assigned_def enriched_labels_def)

text \<open>
  The body of a row leaves the frame with the first \<open>k\<close> fields of the row assigned, in the
  order of the stages, and nothing else changed; \<open>k = 5\<close> exactly when no statement raised.
\<close>

lemma row_body_assigned:
  "\<exists>vals. length vals \<le> 5
     \<and> fst (snd (row_body svc api_key i row df log)) = assigned df i vals
     \<and> (fst (row_body svc api_key i row df log) = Inr () \<longleftrightarrow> length vals = 5)"
proof -
  obtain R log1 where R: "get_place_id_from_text_query svc row api_key log = (R, log1)"
    by (cases "get_place_id_from_text_query svc row api_key log")
  show ?thesis
  proof (cases R)
    case (Inl f)
    then show ?thesis using R
      by (intro exI[of _ "[]"]) (simp add: row_body_def assigned_simps)
  next
    case (Inr resolved)
    define p where "p = str_place_id resolved"
    obtain D log2 where D: "get_place_info_from_place_id svc p api_key log1 = (D, log2)"
      by (cases "get_place_info_from_place_id svc p api_key log1")
    show ?thesis
    proof (cases D)
      case (Inl f)
      then show ?thesis using R Inr D p_def
        by (intro exI[of _ "[p]"]) (simp add: row_body_def assigned_simps)
    next
      case pr: (Inr place_result)
      show ?thesis
      proof (cases "result_url place_result")
        case (Inl f)
        then show ?thesis using R Inr D pr p_def
          by (intro exI[of _ "[p]"]) (simp add: row_body_def assigned_simps)
      next
        case u: (Inr u)
        show ?thesis
        proof (cases "result_lat place_result")
          case (Inl f)
          then show ?thesis using R Inr D pr u p_def
            by (intro exI[of _ "[p, u]"]) (simp add: row_body_def assigned_simps)
        next
          case la: (Inr la)
          show ?thesis
          proof (cases "result_lng place_result")
            case (Inl f)
            then show ?thesis using R Inr D pr u la p_def
              by (intro exI[of _ "[p, u, la]"]) (simp add: row_body_def assigned_simps)
          next
            case ln: (Inr ln)
            show ?thesis
            proof (cases "first_photo_reference place_result")
              case (Inl f)
              then show ?thesis using R Inr D pr u la ln p_def
                by (intro exI[of _ "[p, u, la, ln]"]) (simp add: row_body_def assigned_simps)
            next
              case ref: (Inr ref)
              obtain I log3 where I:
                "get_image_url_from_photo_preference svc ref api_key log2 = (I, log3)"
                by (cases "get_image_url_from_photo_preference svc ref api_key log2")
              show ?thesis
              proof (cases I)
                case (Inl f)
                then show ?thesis using R Inr D pr u la ln ref I p_def
                  by (intro exI[of _ "[p, u, la, ln]"]) (simp add: row_body_def assigned_simps)
              next
                case im: (Inr im)
                then show ?thesis using R Inr D pr u la ln ref I p_def
                  by (intro exI[of _ "[p, u, la, ln, im]"])
                     (simp add: row_body_def assigned_simps)
              qed
            qed
          qed
        qed
      qed
    qed
  qed
qed


lemma process_row_induct:
  assumes "P d"
    and "\<And>d l v. P d \<Longrightarrow> l \<in> set enriched_labels \<Longrightarrow> P (at_set d (fst ir) l (Text v))"
  shows "P (fst (process_row svc api_key ir (d, lg)))"
proof -
  from row_body_assigned[of svc api_key "fst ir" "snd ir" d lg]
  obtain vals where "fst (snd (row_body svc api_key (fst ir) (snd ir) d lg))
      = assigned d (fst ir) vals" by blast
  then show ?thesis
    using assigned_induct[of P d "fst ir" vals, OF assms] by (simp add: process_row_def)
qed

lemma fold_process_row_induct:
  assumes "P d"
    and "\<And>d l v j. P d \<Longrightarrow> l \<in> set enriched_labels \<Longrightarrow> j \<in> fst ` set irs
           \<Longrightarrow> P (at_set d j l (Text v))"
  shows "P (fst (fold (process_row svc api_key) irs (d, lg)))"
  using assms
proof (induction irs arbitrary: d lg)
  case Nil
  then show ?case by simp
next
  case (Cons ir irs)
  obtain d' lg' where st: "process_row svc api_key ir (d, lg) = (d', lg')"
    by (cases "process_row svc api_key ir (d, lg)")
  have "P d'"
    using process_row_induct[of P d ir svc api_key lg] Cons.prems st by simp
  then have "P (fst (fold (process_row svc api_key) irs (d', lg')))"
    using Cons.prems(2) by (intro Cons.IH) auto
  then show ?case using st by simp
qed

lemma fst_iterrows: "map fst (iterrows df) = [0..<nrows df]"
  by (simp add: iterrows_def comp_def)

lemma length_iterrows [simp]: "length (iterrows df) = nrows df"
  by (simp add: iterrows_def)

lemma iterrows_nth:
  "i < nrows df \<Longrightarrow> iterrows df ! i = (i, map (\<lambda>(label, vs). (label, vs ! i)) (columns df))"
  by (simp add: iterrows_def)

lemma iterrows_take: "j \<in> fst ` set (take i (iterrows df)) \<Longrightarrow> j < i"
proof -
  assume "j \<in> fst ` set (take i (iterrows df))"
  then have "j \<in> set (take i (map fst (iterrows df)))" by (simp add: take_map)
  then show ?thesis by (auto simp: fst_iterrows in_set_conv_nth)
qed

lemma iterrows_drop: "j \<in> fst ` set (drop (Suc i) (iterrows df)) \<Longrightarrow> i < j"
proof -
  assume "j \<in> fst ` set (drop (Suc i) (iterrows df))"
  then have "j \<in> set (drop (Suc i) (map fst (iterrows df)))" by (simp add: drop_map)
  then show ?thesis by (simp add: fst_iterrows)
qed

lemma enrich_split:
  assumes "i < nrows df"
  shows "enrich svc api_key df log =
           fold (process_row svc api_key) (drop (Suc i) (iterrows df))
             (process_row svc api_key (iterrows df ! i) (state_before svc api_key df log i))"
proof -
  have "iterrows df = take i (iterrows df) @ iterrows df ! i # drop (Suc i) (iterrows df)"
    using assms by (simp add: id_take_nth_drop)
  then have "fold (process_row svc api_key) (iterrows df) (df, log)
      = fold (process_row svc api_key)
          (take i (iterrows df) @ iterrows df ! i # drop (Suc i) (iterrows df)) (df, log)"
    by simp
  then show ?thesis by (simp add: enrich_def state_before_def)
qed

text \<open>The rows of other indices leave the cells of row \<open>i\<close> as they are.\<close>

lemma other_rows_keep:
  assumes "\<forall>l\<in>set enriched_labels. map_of (columns d) l \<noteq> None"
    and "i \<notin> fst ` set irs"
  shows "(\<forall>l\<in>set enriched_labels.
            map_of (columns (fst (fold (process_row svc api_key) irs (d, lg)))) l \<noteq> None)
       \<and> (\<forall>l. cell_at (fst (fold (process_row svc api_key) irs (d, lg))) l i = cell_at d l i)"
proof (rule fold_process_row_induct[where P = "\<lambda>x.
          (\<forall>l\<in>set enriched_labels. map_of (columns x) l \<noteq> None)
        \<and> (\<forall>l. cell_at x l i = cell_at d l i)"])
  show "(\<forall>l\<in>set enriched_labels. map_of (columns d) l \<noteq> None)
        \<and> (\<forall>l. cell_at d l i = cell_at d l i)"
    using assms(1) by simp
next
  fix x l v j
  assume P: "(\<forall>l\<in>set enriched_labels. map_of (columns x) l \<noteq> None)
        \<and> (\<forall>l. cell_at x l i = cell_at d l i)"
    and l: "l \<in> set enriched_labels" and j: "j \<in> fst ` set irs"
  have ji: "j \<noteq> i" using j assms(2) by auto
  have ex: "map_of (columns x) l \<noteq> None" using P l by simp
  have "cell_at (at_set x j l (Text v)) l' i = cell_at x l' i" for l'
    using ji ex by (intro cell_at_at_set_other) auto
  moreover have "\<forall>la\<in>set enriched_labels. map_of (columns (at_set x j l (Text v))) la \<noteq> None"
    using P by (simp add: map_of_columns_at_set)
  ultimately show "(\<forall>la\<in>set enriched_labels. map_of (columns (at_set x j l (Text v))) la \<noteq> None)
        \<and> (\<forall>la. cell_at (at_set x j l (Text v)) la i = cell_at d la i)"
    using P by simp
qed

lemma state_before_keeps:
  assumes "\<forall>l\<in>set enriched_labels. map_of (columns df) l \<noteq> None"
  shows "(\<forall>l\<in>set enriched_labels.
            map_of (columns (fst (state_before svc api_key df log i))) l \<noteq> None)
       \<and> (\<forall>l. cell_at (fst (state_before svc api_key df log i)) l i = cell_at df l i)"
  unfolding state_before_def
  using iterrows_take[of i i df] by (intro other_rows_keep[OF assms]) auto

lemma enrich_cell:
  assumes "i < nrows df"
    and "\<forall>l\<in>set enriched_labels. map_of (columns df) l \<noteq> None"
  shows "cell_at (fst (enrich svc api_key df log)) l i
       = cell_at (fst (process_row svc api_key (iterrows df ! i)
                        (state_before svc api_key df log i))) l i"
proof -
  obtain d lg where st: "state_before svc api_key df log i = (d, lg)"
    by (cases "state_before svc api_key df log i")
  obtain d' lg' where pr: "process_row svc api_key (iterrows df ! i) (d, lg) = (d', lg')"
    by (cases "process_row svc api_key (iterrows df ! i) (d, lg)")
  have d: "\<forall>l\<in>set enriched_labels. map_of (columns d) l \<noteq> None"
    using state_before_keeps[OF assms(2), of svc api_key log i] st by simp
  have "\<forall>l\<in>set enriched_labels. map_of (columns (fst (process_row svc api_key (iterrows df ! i) (d, lg)))) l \<noteq> None"
    by (rule process_row_induct) (use d in \<open>simp_all add: map_of_columns_at_set\<close>)
  then have d': "\<forall>l\<in>set enriched_labels. map_of (columns d') l \<noteq> None"
    using pr by simp
  have "i \<notin> fst ` set (drop (Suc i) (iterrows df))"
    using iterrows_drop[of i i df] by auto
  from other_rows_keep[OF d' this, of svc api_key lg']
  show ?thesis using enrich_split[OF assms(1), of svc api_key log] st pr by simp
qed


subsection \<open>Persistence and the whole run\<close>

lemma map_of_filter_labels:
  "map_of (filter (\<lambda>(label, vs). label \<notin> S) al) k = (if k \<in> S then None else map_of al k)"
  by (induction al) auto

lemma drop_columns_Inr:
  "drop_columns df labels = Inr d
   \<Longrightarrow> columns d = filter (\<lambda>(label, vs). label \<notin> set labels) (columns df) \<and> nrows d = nrows df"
  by (auto simp: drop_columns_def split: list.splits)

lemma drop_columns_present:
  assumes "\<forall>l\<in>set labels. map_of (columns df) l \<noteq> None"
  shows "\<exists>d. drop_columns df labels = Inr d"
proof -
  have "\<forall>l\<in>set labels. l \<in> fst ` set (columns df)"
    using assms by (simp add: map_of_eq_None_iff)
  then have "filter (\<lambda>l. l \<notin> fst ` set (columns df)) labels = []"
    by (simp add: filter_empty_conv)
  then show ?thesis by (simp add: drop_columns_def)
qed

lemma cell_at_drop_columns:
  "drop_columns df labels = Inr d
   \<Longrightarrow> cell_at d l i = (if l \<in> set labels then None else cell_at df l i)"
  using drop_columns_Inr[of df labels d] by (simp add: cell_at_def map_of_filter_labels)

text \<open>The tail of the script, by cases on the database calls.\<close>

lemma persist_eq:
  "persist db df w =
     (case drop_columns df columns_to_delete of
        Inl f \<Rightarrow> (Inl f, to_excel w ''output_file_selesai_belum.xlsx'' df)
      | Inr d \<Rightarrow>
          if connect db \<noteq> None \<or> cursor db \<noteq> None then
            (Inl (UnboundLocalError ''cursor''), to_excel w ''output_file_selesai_belum.xlsx'' df)
          else if check_table_exits db = None \<and> insert_data db = None then
            (Inr (),
             to_excel ((to_excel w ''output_file_selesai_belum.xlsx'' df)
                         \<lparr>appended := appended w @ [d]\<rparr>) ''list-provider-end.xlsx'' d)
          else
            (Inr (),
             to_excel (to_excel w ''output_file_selesai_belum.xlsx'' df)
               ''list-provider-end.xlsx'' d))"
  by (auto simp: persist_def db_try_def db_finally_def Let_def to_excel_def
      split: sum.splits option.splits)

text \<open>
  What \<open>persist\<close> writes: first the snapshot of the frame it is given; then, if anything, the
  frame without the working columns, to the database and to the final spreadsheet.
\<close>

lemma persist_files:
  "\<exists>rest. files (snd (persist db df w)) = files w @ (''output_file_selesai_belum.xlsx'', df) # rest
     \<and> (rest = [] \<or> (\<exists>d. drop_columns df columns_to_delete = Inr d
                          \<and> rest = [(''list-provider-end.xlsx'', d)]))"
  by (simp add: persist_eq to_excel_def split: sum.splits)

lemma persist_appended:
  "appended (snd (persist db df w)) = appended w
   \<or> (\<exists>d. drop_columns df columns_to_delete = Inr d
          \<and> appended (snd (persist db df w)) = appended w @ [d])"
  by (simp add: persist_eq to_excel_def split: sum.splits)

text \<open>When the connection or the cursor cannot be had, the \<open>finally\<close> block raises.\<close>

lemma persist_no_cursor:
  assumes "drop_columns df columns_to_delete = Inr d"
    and "connect db \<noteq> None \<or> cursor db \<noteq> None"
  shows "persist db df w
           = (Inl (UnboundLocalError ''cursor''), to_excel w ''output_file_selesai_belum.xlsx'' df)"
  using assms by (simp add: persist_eq)

text \<open>When both can be had, the final spreadsheet is written, whatever the later calls do.\<close>

lemma persist_with_cursor:
  assumes "drop_columns df columns_to_delete = Inr d"
    and "connect db = None" and "cursor db = None"
  shows "fst (persist db df w) = Inr ()
       \<and> files (snd (persist db df w))
           = files w @ [(''output_file_selesai_belum.xlsx'', df), (''list-provider-end.xlsx'', d)]"
  using assms by (simp add: persist_eq to_excel_def)

lemma main_persist:
  assumes "read_excel env = Inr table" and "alamat_parameter table = Inr ap"
  shows "main env =
           persist (postgres env)
             (fst (enrich (lookup_service env) (KEY env)
                     (blank_columns (setitem table ''alamat_parameter'' ap)) []))
             \<lparr>requests = snd (enrich (lookup_service env) (KEY env)
                     (blank_columns (setitem table ''alamat_parameter'' ap)) []),
              files = [], appended = []\<rparr>"
  using assms by (simp add: main_def split: prod.splits)

lemma main_no_table:
  "read_excel env = Inl f \<or> (read_excel env = Inr table \<and> alamat_parameter table = Inl f)
   \<Longrightarrow> main env = (Inl f, \<lparr>requests = [], files = [], appended = []\<rparr>)"
  by (auto simp: main_def)

lemma nrows_blank_columns [simp]: "nrows (blank_columns df) = nrows df"
  by (simp add: blank_columns_def setitem_def)

lemma map_of_blank_columns:
  "map_of (columns (blank_columns df)) l =
     (if l \<in> set enriched_labels then Some (blank df) else map_of (columns df) l)"
  by (simp add: blank_columns_def map_of_columns_setitem enriched_labels_def)

text \<open>The loop keeps the number of rows, the columns it does not fill, and every column's length.\<close>

lemma enrich_keeps:
  "nrows (fst (enrich svc api_key df log)) = nrows df
   \<and> (\<forall>l. l \<notin> set enriched_labels
          \<longrightarrow> map_of (columns (fst (enrich svc api_key df log))) l = map_of (columns df) l)
   \<and> (\<forall>l vs. map_of (columns df) l = Some vs
          \<longrightarrow> (\<exists>vs'. map_of (columns (fst (enrich svc api_key df log))) l = Some vs'
                    \<and> length vs' = length vs))"
  unfolding enrich_def
proof (rule fold_process_row_induct[where P = "\<lambda>x::data_frame. nrows x = nrows df
   \<and> (\<forall>l. l \<notin> set enriched_labels \<longrightarrow> map_of (columns x) l = map_of (columns df) l)
   \<and> (\<forall>l vs. map_of (columns df) l = Some vs
          \<longrightarrow> (\<exists>vs'. map_of (columns x) l = Some vs' \<and> length vs' = length vs))"])
  show "nrows df = nrows df
   \<and> (\<forall>l. l \<notin> set enriched_labels \<longrightarrow> map_of (columns df) l = map_of (columns df) l)
   \<and> (\<forall>l vs. map_of (columns df) l = Some vs
          \<longrightarrow> (\<exists>vs'. map_of (columns df) l = Some vs' \<and> length vs' = length vs))"
    by simp
next
  fix x :: data_frame and l v j
  assume P: "nrows x = nrows df
   \<and> (\<forall>l. l \<notin> set enriched_labels \<longrightarrow> map_of (columns x) l = map_of (columns df) l)
   \<and> (\<forall>l vs. map_of (columns df) l = Some vs
          \<longrightarrow> (\<exists>vs'. map_of (columns x) l = Some vs' \<and> length vs' = length vs))"
    and l: "l \<in> set enriched_labels"
  show "nrows (at_set x j l (Text v)) = nrows df
   \<and> (\<forall>la. la \<notin> set enriched_labels
          \<longrightarrow> map_of (columns (at_set x j l (Text v))) la = map_of (columns df) la)
   \<and> (\<forall>la vs. map_of (columns df) la = Some vs
          \<longrightarrow> (\<exists>vs'. map_of (columns (at_set x j l (Text v))) la = Some vs'
                    \<and> length vs' = length vs))"
  proof (intro conjI allI impI)
    show "nrows (at_set x j l (Text v)) = nrows df" using P by simp
  next
    fix la assume "la \<notin> set enriched_labels"
    then show "map_of (columns (at_set x j l (Text v))) la = map_of (columns df) la"
      using P l by (auto simp: map_of_columns_at_set)
  next
    fix la vs assume "map_of (columns df) la = Some vs"
    then obtain vs' where "map_of (columns x) la = Some vs'" "length vs' = length vs"
      using P by blast
    then show "\<exists>vs'. map_of (columns (at_set x j l (Text v))) la = Some vs'
                    \<and> length vs' = length vs"
      using column_at_set_keeps[of x la vs' j l "Text v"] by simp
  qed
qed


text \<open>In \<open>main\<close> the working columns exist when they are dropped.\<close>

lemma main_drop_columns:
  "\<exists>d. drop_columns
          (fst (enrich svc api_key (blank_columns (setitem table ''alamat_parameter'' ap)) log))
          columns_to_delete = Inr d"
proof (rule drop_columns_present, intro ballI)
  fix l assume "l \<in> set columns_to_delete"
  then have "map_of (columns (blank_columns (setitem table ''alamat_parameter'' ap))) l \<noteq> None"
    by (auto simp: columns_to_delete_def map_of_blank_columns map_of_columns_setitem
        enriched_labels_def)
  then show "map_of (columns (fst (enrich svc api_key
                (blank_columns (setitem table ''alamat_parameter'' ap)) log))) l \<noteq> None"
    using enrich_keeps[of svc api_key "blank_columns (setitem table ''alamat_parameter'' ap)" log]
    by fastforce
qed

text \<open>Every row is processed, whatever happened in the rows before it.\<close>

lemma state_before_Suc:
  "i < nrows df
   \<Longrightarrow> state_before svc api_key df log (Suc i)
         = process_row svc api_key (iterrows df ! i) (state_before svc api_key df log i)"
  by (simp add: state_before_def take_Suc_conv_app_nth)

lemma enrich_state_before:
  "enrich svc api_key df log = state_before svc api_key df log (nrows df)"
  by (simp add: enrich_def state_before_def)

lemmas run_simps =
  main_def run_def klinik_def alamat_parameter_def getitem_def
  blank_columns_def blank_def setitem_def enrich_def iterrows_def process_row_def row_body_def
  get_place_id_from_text_query_def while_loop.simps max_retries_def query_value_def
  get_place_api_def svc_found_def ok_def scan_response_def
  check_type_in_response_def type_options_def get_place_info_from_place_id_def at_set_def
  result_url_def result_lat_def result_lng_def result_location_def first_photo_reference_def
  get_image_url_from_photo_preference_def
  persist_def to_excel_def drop_columns_def columns_to_delete_def db_try_def db_up_def
  db_finally_def Let_def

text \<open>
  A failure to connect leaves \<open>cursor\<close> unassigned; the \<open>finally\<close> block then raises and the
  final spreadsheet is not written.
\<close>

lemma main_connect_fault:
  assumes "read_excel env = Inr table" and "alamat_parameter table = Inr ap"
    and "connect (postgres env) \<noteq> None \<or> cursor (postgres env) \<noteq> None"
  shows "fst (main env) = Inl (UnboundLocalError ''cursor'')
       \<and> map fst (files (snd (main env))) = [''output_file_selesai_belum.xlsx'']
       \<and> appended (snd (main env)) = []"
proof -
  from main_drop_columns[of "lookup_service env" "KEY env" table ap "[]"]
  obtain d where "drop_columns
          (fst (enrich (lookup_service env) (KEY env)
                  (blank_columns (setitem table ''alamat_parameter'' ap)) []))
          columns_to_delete = Inr d" by blast
  from persist_no_cursor[OF this assms(3)] show ?thesis
    using main_persist[OF assms(1,2)] by (simp add: to_excel_def)
qed

text \<open>A failure of the later database calls is caught: both spreadsheets are written.\<close>

lemma main_insert_fault:
  assumes "read_excel env = Inr table" and "alamat_parameter table = Inr ap"
    and "connect (postgres env) = None" and "cursor (postgres env) = None"
  shows "fst (main env) = Inr ()
       \<and> map fst (files (snd (main env)))
           = [''output_file_selesai_belum.xlsx'', ''list-provider-end.xlsx'']"
proof -
  from main_drop_columns[of "lookup_service env" "KEY env" table ap "[]"]
  obtain d where "drop_columns
          (fst (enrich (lookup_service env) (KEY env)
                  (blank_columns (setitem table ''alamat_parameter'' ap)) []))
          columns_to_delete = Inr d" by blast
  from persist_with_cursor[OF this assms(3,4)] show ?thesis
    using main_persist[OF assms(1,2)] by simp
qed

text \<open>
  C7 (the code at the failing input): one provider, a lookup service that answers, a
  database server that cannot be reached. \<open>psycopg2.connect\<close> raises, the \<open>except\<close> clause
  catches the fault, and the \<open>finally\<close> block reads \<open>cursor\<close>, which was never assigned: the run
  ends with \<open>UnboundLocalError\<close>, having written the first spreadsheet only.
\<close>

theorem C7_unreachable_database_run:
  "main (run svc_found db_unreachable)
     = (Inl (UnboundLocalError ''cursor''),
        \<lparr>requests =
           [FindPlaceFromText (Text ''Klinik Sehat, Jl. Mawar 1, Jakarta'') (Some ''K''),
            PlaceDetails ''clinic2'' (Some ''K''),
            PlacePhoto ''abc'' (Some ''K'')],
         files =
           [(''output_file_selesai_belum.xlsx'',
             \<lparr>nrows = 1,
              columns =
                [(''id'', [Other ''1'']),
                 (''province'', [Text ''DKI Jakarta'']),
                 (''city'', [Text ''Jakarta'']),
                 (''name'', [Text ''Klinik Sehat'']),
                 (''address'', [Text ''Jl. Mawar 1'']),
                 (''alamat_parameter'', [Text ''Klinik Sehat, Jl. Mawar 1, Jakarta'']),
                 (''place_id'', [Text ''clinic2'']),
                 (''map_url'', [Text ''https://maps.example/?cid=2'']),
                 (''latitude'', [Text ''-6.2'']),
                 (''longitude'', [Text ''106.8'']),
                 (''image_url'',
                  [Text ''https://maps.example/photo?maxwidth=400&photo_reference=abc''])]\<rparr>)],
         appended = []\<rparr>)"
  by (simp add: run_simps db_unreachable_def)


text \<open>
  C8: a frame that the run appends to the database or writes to \<open>list-provider-end.xlsx\<close>
  is the enriched table (the one written to \<open>output_file_selesai_belum.xlsx\<close>) without the
  columns \<open>alamat_parameter\<close> and \<open>place_id\<close>: the other columns are kept, with their cells and
  in their order, and neither working column is among its labels.
\<close>

theorem C8_working_columns_dropped:
  "(''list-provider-end.xlsx'', f) \<in> set (files (snd (main env)))
     \<or> f \<in> set (appended (snd (main env)))
   \<longrightarrow> (\<exists>enriched.
          (''output_file_selesai_belum.xlsx'', enriched) \<in> set (files (snd (main env)))
          \<and> columns f = filter (\<lambda>(label, vs). label \<noteq> ''alamat_parameter'' \<and> label \<noteq> ''place_id'')
                          (columns enriched)
          \<and> nrows f = nrows enriched)
       \<and> ''alamat_parameter'' \<notin> fst ` set (columns f)
       \<and> ''place_id'' \<notin> fst ` set (columns f)"
proof
  assume f: "(''list-provider-end.xlsx'', f) \<in> set (files (snd (main env)))
     \<or> f \<in> set (appended (snd (main env)))"
  have nonempty: "files (snd (main env)) \<noteq> [] \<or> appended (snd (main env)) \<noteq> []"
    using f by auto
  obtain table where t: "read_excel env = Inr table"
    using nonempty main_no_table[of env _ undefined] by (cases "read_excel env") auto
  obtain ap where ap: "alamat_parameter table = Inr ap"
    using nonempty t main_no_table[of env _ table] by (cases "alamat_parameter table") auto
  define E where "E = fst (enrich (lookup_service env) (KEY env)
                     (blank_columns (setitem table ''alamat_parameter'' ap)) [])"
  define w where "w = \<lparr>requests = snd (enrich (lookup_service env) (KEY env)
                     (blank_columns (setitem table ''alamat_parameter'' ap)) []),
              files = [], appended = []\<rparr>"
  have m: "main env = persist (postgres env) E w"
    using main_persist[OF t ap] by (simp add: E_def w_def)
  from persist_files[of "postgres env" E w] obtain rest where
    files: "files (snd (main env)) = (''output_file_selesai_belum.xlsx'', E) # rest"
    and rest: "rest = [] \<or> (\<exists>d. drop_columns E columns_to_delete = Inr d
                          \<and> rest = [(''list-provider-end.xlsx'', d)])"
    using m by (auto simp: w_def)
  have app: "appended (snd (main env)) = []
     \<or> (\<exists>d. drop_columns E columns_to_delete = Inr d \<and> appended (snd (main env)) = [d])"
    using persist_appended[of "postgres env" E w] m by (simp add: w_def)
  have d: "drop_columns E columns_to_delete = Inr f"
    using f files rest app by auto
  have cols: "columns f = filter (\<lambda>(label, vs). label \<noteq> ''alamat_parameter'' \<and> label \<noteq> ''place_id'')
                          (columns E)"
    using drop_columns_Inr[OF d] by (simp add: columns_to_delete_def)
  have "(''output_file_selesai_belum.xlsx'', E) \<in> set (files (snd (main env)))"
    using files by simp
  moreover have "nrows f = nrows E" using drop_columns_Inr[OF d] by simp
  moreover have "''alamat_parameter'' \<notin> fst ` set (columns f)"
    and "''place_id'' \<notin> fst ` set (columns f)"
    unfolding cols by auto
  ultimately show "(\<exists>enriched.
          (''output_file_selesai_belum.xlsx'', enriched) \<in> set (files (snd (main env)))
          \<and> columns f = filter (\<lambda>(label, vs). label \<noteq> ''alamat_parameter'' \<and> label \<noteq> ''place_id'')
                          (columns enriched)
          \<and> nrows f = nrows enriched)
       \<and> ''alamat_parameter'' \<notin> fst ` set (columns f)
       \<and> ''place_id'' \<notin> fst ` set (columns f)"
    using cols by blast
qed

text \<open>The run in which the lookup service finds the clinic and the database works.\<close>

lemma main_run_found:
  "main (run svc_found db_up)
     = (Inr (),
        \<lparr>requests =
           [FindPlaceFromText (Text ''Klinik Sehat, Jl. Mawar 1, Jakarta'') (Some ''K''),
            PlaceDetails ''clinic2'' (Some ''K''),
            PlacePhoto ''abc'' (Some ''K'')],
         files =
           [(''output_file_selesai_belum.xlsx'',
             \<lparr>nrows = 1,
              columns =
                [(''id'', [Other ''1'']),
                 (''province'', [Text ''DKI Jakarta'']),
                 (''city'', [Text ''Jakarta'']),
                 (''name'', [Text ''Klinik Sehat'']),
                 (''address'', [Text ''Jl. Mawar 1'']),
                 (''alamat_parameter'', [Text ''Klinik Sehat, Jl. Mawar 1, Jakarta'']),
                 (''place_id'', [Text ''clinic2'']),
                 (''map_url'', [Text ''https://maps.example/?cid=2'']),
                 (''latitude'', [Text ''-6.2'']),
                 (''longitude'', [Text ''106.8'']),
                 (''image_url'',
                  [Text ''https://maps.example/photo?maxwidth=400&photo_reference=abc''])]\<rparr>),
            (''list-provider-end.xlsx'',
             \<lparr>nrows = 1,
              columns =
                [(''id'', [Other ''1'']),
                 (''province'', [Text ''DKI Jakarta'']),
                 (''city'', [Text ''Jakarta'']),
                 (''name'', [Text ''Klinik Sehat'']),
                 (''address'', [Text ''Jl. Mawar 1'']),
                 (''map_url'', [Text ''https://maps.example/?cid=2'']),
                 (''latitude'', [Text ''-6.2'']),
                 (''longitude'', [Text ''106.8'']),
                 (''image_url'',
                  [Text ''https://maps.example/photo?maxwidth=400&photo_reference=abc''])]\<rparr>)],
         appended =
           [\<lparr>nrows = 1,
             columns =
               [(''id'', [Other ''1'']),
                (''province'', [Text ''DKI Jakarta'']),
                (''city'', [Text ''Jakarta'']),
                (''name'', [Text ''Klinik Sehat'']),
                (''address'', [Text ''Jl. Mawar 1'']),
                (''map_url'', [Text ''https://maps.example/?cid=2'']),
                (''latitude'', [Text ''-6.2'']),
                (''longitude'', [Text ''106.8'']),
                (''image_url'',
                 [Text ''https://maps.example/photo?maxwidth=400&photo_reference=abc''])]\<rparr>]\<rparr>)"
  by (simp add: run_simps)

theorem C8_working_columns_dropped_witness:
  "(\<exists>f. (''list-provider-end.xlsx'', f) \<in> set (files (snd (main (run svc_found db_up))))
        \<and> f \<in> set (appended (snd (main (run svc_found db_up))))
        \<and> map fst (columns f)
            = [''id'', ''province'', ''city'', ''name'', ''address'', ''map_url'', ''latitude'',
               ''longitude'', ''image_url'']
        \<and> ''alamat_parameter'' \<notin> fst ` set (columns f)
        \<and> ''place_id'' \<notin> fst ` set (columns f))"
  using C8_working_columns_dropped [of
      "\<lparr>nrows = 1,
        columns =
          [(''id'', [Other ''1'']),
           (''province'', [Text ''DKI Jakarta'']),
           (''city'', [Text ''Jakarta'']),
           (''name'', [Text ''Klinik Sehat'']),
           (''address'', [Text ''Jl. Mawar 1'']),
           (''map_url'', [Text ''https://maps.example/?cid=2'']),
           (''latitude'', [Text ''-6.2'']),
           (''longitude'', [Text ''106.8'']),
           (''image_url'',
            [Text ''https://maps.example/photo?maxwidth=400&photo_reference=abc''])]\<rparr>"
      "run svc_found db_up"]
  by (simp add: main_run_found)


subsection \<open>One row in the loop\<close>

text \<open>The cells of row \<open>i\<close> in the enriched frame are those that the body of row \<open>i\<close> leaves.\<close>

lemma enrich_row:
  assumes "i < nrows df"
    and "\<forall>l\<in>set enriched_labels. map_of (columns df) l \<noteq> None"
    and "state_before svc api_key df log i = (dfi, logi)"
  shows "cell_at (fst (enrich svc api_key df log)) l i
           = cell_at (fst (snd (row_body svc api_key i (snd (iterrows df ! i)) dfi logi))) l i"
    and "cell_at dfi l i = cell_at df l i"
proof -
  have "fst (iterrows df ! i) = i" using assms(1) by (simp add: iterrows_nth)
  then show "cell_at (fst (enrich svc api_key df log)) l i
           = cell_at (fst (snd (row_body svc api_key i (snd (iterrows df ! i)) dfi logi))) l i"
    using enrich_cell[OF assms(1,2), of svc api_key log l] assms(3)
    by (simp add: process_row_def)
  show "cell_at dfi l i = cell_at df l i"
    using state_before_keeps[OF assms(2), of svc api_key log i] assms(3) by simp
qed

lemma blank_has_column:
  "\<forall>l\<in>set enriched_labels. cell_at df l i = Some (Text [])
   \<Longrightarrow> \<forall>l\<in>set enriched_labels. map_of (columns df) l \<noteq> None"
  by (auto simp: cell_at_def split: option.splits)

text \<open>After a resolution that returned, the identifier is in the row, whatever comes later.\<close>

lemma row_body_place_id:
  assumes "get_place_id_from_text_query svc row api_key log = (Inr r, log1)"
    and "cell_at df ''place_id'' i \<noteq> None"
  shows "cell_at (fst (snd (row_body svc api_key i row df log))) ''place_id'' i
           = Some (Text (str_place_id r))"
proof -
  from row_body_assigned[of svc api_key i row df log] obtain vals where
    v: "fst (snd (row_body svc api_key i row df log)) = assigned df i vals" by blast
  have first: "cell_at (at_set df i ''place_id'' (Text (str_place_id r))) ''place_id'' i
                 = Some (Text (str_place_id r))"
    using assms(2) by (rule cell_at_at_set_same)
  have later: "cell_at (at_set d i l v) ''place_id'' i = cell_at d ''place_id'' i"
    if "l \<noteq> ''place_id''" for d l v
    using that by (intro cell_at_at_set_other) simp
  show ?thesis
    using assms(1) first
    by (simp add: row_body_def Let_def later split: prod.splits sum.splits)
qed

text \<open>After a resolution that returned, the detail request is the next request.\<close>

lemma row_body_detail_request:
  assumes "get_place_id_from_text_query svc row api_key log = (Inr r, log1)"
  shows "\<exists>rest. snd (snd (row_body svc api_key i row df log))
           = log1 @ PlaceDetails (str_place_id r) api_key # rest"
  using assms
  by (auto simp: row_body_def Let_def get_place_info_from_place_id_def
      get_image_url_from_photo_preference_def split: prod.splits sum.splits option.splits)

text \<open>The log only grows.\<close>

lemma row_body_log:
  "\<exists>ext. snd (snd (row_body svc api_key i row df log)) = log @ ext"
proof -
  obtain R log1 where R: "get_place_id_from_text_query svc row api_key log = (R, log1)"
    by (cases "get_place_id_from_text_query svc row api_key log")
  from while_loop_log[of svc row api_key None 0 log] R
  obtain reqs where l1: "log1 = log @ reqs"
    by (auto simp: get_place_id_from_text_query_def)
  show ?thesis
  proof (cases R)
    case (Inl f)
    then show ?thesis using R l1 by (simp add: row_body_def)
  next
    case (Inr r)
    from row_body_detail_request[of svc row api_key log r log1 i df] R Inr l1
    show ?thesis by auto
  qed
qed

lemma fold_process_row_log:
  "\<exists>ext. snd (fold (process_row svc api_key) irs (d, lg)) = lg @ ext"
proof (induction irs arbitrary: d lg)
  case Nil
  then show ?case by simp
next
  case (Cons ir irs)
  obtain d' lg' where st: "process_row svc api_key ir (d, lg) = (d', lg')"
    by (cases "process_row svc api_key ir (d, lg)")
  from row_body_log[of svc api_key "fst ir" "snd ir" d lg] st
  obtain e1 where e1: "lg' = lg @ e1" by (auto simp: process_row_def)
  from Cons.IH[of d' lg'] obtain e2 where
    "snd (fold (process_row svc api_key) irs (d', lg')) = lg' @ e2" by blast
  then show ?case using st e1 by simp
qed

text \<open>The requests of a row are in the log of the loop.\<close>

lemma enrich_log:
  assumes "i < nrows df" and "state_before svc api_key df log i = (dfi, logi)"
  shows "\<exists>ext. snd (enrich svc api_key df log)
           = snd (snd (row_body svc api_key i (snd (iterrows df ! i)) dfi logi)) @ ext"
proof -
  have i: "fst (iterrows df ! i) = i" using assms(1) by (simp add: iterrows_nth)
  obtain d' lg' where pr: "process_row svc api_key (iterrows df ! i) (dfi, logi) = (d', lg')"
    by (cases "process_row svc api_key (iterrows df ! i) (dfi, logi)")
  then have lg': "lg' = snd (snd (row_body svc api_key i (snd (iterrows df ! i)) dfi logi))"
    using i by (simp add: process_row_def)
  from fold_process_row_log[of svc api_key "drop (Suc i) (iterrows df)" d' lg']
  show ?thesis using enrich_split[OF assms(1), of svc api_key log] assms(2) pr lg' by simp
qed


text \<open>Three attempts without a qualifying candidate exhaust the ladder.\<close>

lemma resolver_exhausted:
  assumes "map_of row_value ''alamat_parameter'' = Some ap"
    and "map_of row_value ''name'' = Some (Text n)"
    and "map_of row_value ''city'' = Some (Text c)"
    and "map_of row_value ''address'' = Some a"
    and "findplacefromtext svc log ap api_key = Inr r0"
    and "no_qualifying_candidate r0"
    and "findplacefromtext svc (log @ [FindPlaceFromText ap api_key])
           (Text (n @ '', '' @ c)) api_key = Inr r1"
    and "no_qualifying_candidate r1"
    and "findplacefromtext svc
           (log @ [FindPlaceFromText ap api_key, FindPlaceFromText (Text (n @ '', '' @ c)) api_key])
           a api_key = Inr r2"
    and "no_qualifying_candidate r2"
  shows "get_place_id_from_text_query svc row_value api_key log
           = (Inr None, log @ ladder ap n c a api_key)"
proof -
  note q = query_value_row[OF assms(1-4)]
  have "while_loop svc row_value api_key None 0 log
          = while_loop svc row_value api_key None (Suc 0) (log @ [FindPlaceFromText ap api_key])"
    using while_loop_advance[OF _ q(1) assms(5,6)] by (simp add: max_retries_def)
  also have "\<dots> = while_loop svc row_value api_key None (Suc (Suc 0))
          (log @ [FindPlaceFromText ap api_key, FindPlaceFromText (Text (n @ '', '' @ c)) api_key])"
    using while_loop_advance[OF _ q(2) assms(7,8)] by (simp add: max_retries_def)
  also have "\<dots> = while_loop svc row_value api_key None (Suc (Suc (Suc 0)))
          (log @ ladder ap n c a api_key)"
    using while_loop_advance[OF _ q(3) assms(9,10)]
    by (simp add: max_retries_def ladder_def numeral_2_eq_2)
  also have "\<dots> = (Inr None, log @ ladder ap n c a api_key)"
    by (rule while_loop_exit) (simp add: max_retries_def)
  finally show ?thesis by (simp add: get_place_id_from_text_query_def)
qed

text \<open>The row of the one-provider table, and its resolution by the example services.\<close>

lemma klinik_table_row: "snd (iterrows klinik_table ! 0) = klinik_row"
  by (simp add: klinik_table_def klinik_row_def klinik_def iterrows_def blank_columns_def
      blank_def setitem_def)

lemma klinik_table_blank:
  "nrows klinik_table = 1 \<and> (\<forall>l\<in>set enriched_labels. cell_at klinik_table l 0 = Some (Text []))"
  by (simp add: klinik_table_def klinik_def blank_columns_def blank_def setitem_def
      enriched_labels_def cell_at_def)

lemma klinik_resolved:
  assumes "findplacefromtext svc = findplacefromtext svc_found"
  shows "get_place_id_from_text_query svc klinik_row k []
           = (Inr (Some ''clinic2''),
              [FindPlaceFromText (Text ''Klinik Sehat, Jl. Mawar 1, Jakarta'') k])"
proof -
  have q: "query_value klinik_row 0 = Inr (Some (Text ''Klinik Sehat, Jl. Mawar 1, Jakarta''))"
    by (simp add: query_value_def getitem_def klinik_row_def)
  have r: "findplacefromtext svc [] (Text ''Klinik Sehat, Jl. Mawar 1, Jakarta'') k
             = Inr (ok \<lparr>j_candidates = Some
          [\<lparr>c_place_id = Some ''shop1'', c_types = Some [''store'', ''dentist_office'']\<rparr>,
           \<lparr>c_place_id = Some ''clinic2'', c_types = Some [''point_of_interest'', ''health'']\<rparr>,
           \<lparr>c_place_id = Some ''clinic3'', c_types = Some [''hospital'']\<rparr>]\<rparr>)"
    using assms by (simp add: svc_found_def)
  show ?thesis
    unfolding get_place_id_from_text_query_def
    using while_loop_accept[OF _ q r, of "''clinic2''"]
    by (simp add: max_retries_def ok_def scan_response_def check_type_in_response_def
        type_options_def)
qed

lemma klinik_exhausted:
  "get_place_id_from_text_query svc_shops klinik_row k []
     = (Inr None,
        [FindPlaceFromText (Text ''Klinik Sehat, Jl. Mawar 1, Jakarta'') k,
         FindPlaceFromText (Text ''Klinik Sehat, Jakarta'') k,
         FindPlaceFromText (Text ''Jl. Mawar 1'') k])"
  using resolver_exhausted[of klinik_row "Text ''Klinik Sehat, Jl. Mawar 1, Jakarta''"
      "''Klinik Sehat''" "''Jakarta''" "Text ''Jl. Mawar 1''" svc_shops "[]" k
      "ok \<lparr>j_candidates = Some
            [\<lparr>c_place_id = Some ''shop1'', c_types = Some [''store'', ''dentist_office'']\<rparr>]\<rparr>"
      "\<lparr>status_code = 500, json = None, url = ''https://maps.example/''\<rparr>"
      "\<lparr>status_code = 500, json = None, url = ''https://maps.example/''\<rparr>"]
  by (simp add: klinik_row_def svc_shops_def ok_def no_qualifying_candidate_def disqualified_def
      check_type_in_response_def type_options_def ladder_def)

text \<open>
  C3: for a row with its derived query, text name and city and an address, when each of the
  three attempts gets a response with no qualifying candidate, the resolver issues exactly
  the three requests of the ladder and returns \<open>None\<close>; in the loop, the \<open>place_id\<close> field of
  that row then holds the string \<open>None\<close> in the enriched table.
\<close>

theorem C3_exhaustion_stores_None:
  assumes "map_of row_value ''alamat_parameter'' = Some ap"
    and "map_of row_value ''name'' = Some (Text n)"
    and "map_of row_value ''city'' = Some (Text c)"
    and "map_of row_value ''address'' = Some a"
    and "findplacefromtext svc log ap api_key = Inr r0"
    and "no_qualifying_candidate r0"
    and "findplacefromtext svc (log @ [FindPlaceFromText ap api_key])
           (Text (n @ '', '' @ c)) api_key = Inr r1"
    and "no_qualifying_candidate r1"
    and "findplacefromtext svc
           (log @ [FindPlaceFromText ap api_key, FindPlaceFromText (Text (n @ '', '' @ c)) api_key])
           a api_key = Inr r2"
    and "no_qualifying_candidate r2"
  shows "get_place_id_from_text_query svc row_value api_key log
           = (Inr None,
              log @ [FindPlaceFromText ap api_key,
                     FindPlaceFromText (Text (n @ '', '' @ c)) api_key,
                     FindPlaceFromText a api_key])
     \<and> (i < nrows df \<and> (\<forall>l\<in>set enriched_labels. cell_at df l i \<noteq> None)
          \<and> state_before svc api_key df log0 i = (dfi, log)
          \<and> snd (iterrows df ! i) = row_value
        \<longrightarrow> cell_at (fst (enrich svc api_key df log0)) ''place_id'' i = Some (Text ''None''))"
proof (intro conjI impI)
  show res: "get_place_id_from_text_query svc row_value api_key log
           = (Inr None,
              log @ [FindPlaceFromText ap api_key,
                     FindPlaceFromText (Text (n @ '', '' @ c)) api_key,
                     FindPlaceFromText a api_key])"
    using resolver_exhausted[OF assms] by (simp add: ladder_def)
  assume h: "i < nrows df \<and> (\<forall>l\<in>set enriched_labels. cell_at df l i \<noteq> None)
          \<and> state_before svc api_key df log0 i = (dfi, log)
          \<and> snd (iterrows df ! i) = row_value"
  then have cols: "\<forall>l\<in>set enriched_labels. map_of (columns df) l \<noteq> None"
    by (auto simp: cell_at_def split: option.splits)
  have i: "i < nrows df" and st: "state_before svc api_key df log0 i = (dfi, log)"
    using h by simp_all
  have "cell_at dfi ''place_id'' i \<noteq> None"
    using enrich_row(2)[OF i cols st, of "''place_id''"] h by (simp add: enriched_labels_def)
  from row_body_place_id[OF res this]
  show "cell_at (fst (enrich svc api_key df log0)) ''place_id'' i = Some (Text ''None'')"
    using enrich_row(1)[OF i cols st, of "''place_id''"] h by simp
qed

theorem C3_exhaustion_stores_None_witness:
  "get_place_id_from_text_query svc_shops klinik_row (Some ''K'') []
     = (Inr None,
        [FindPlaceFromText (Text ''Klinik Sehat, Jl. Mawar 1, Jakarta'') (Some ''K''),
         FindPlaceFromText (Text ''Klinik Sehat, Jakarta'') (Some ''K''),
         FindPlaceFromText (Text ''Jl. Mawar 1'') (Some ''K'')])
   \<and> cell_at (fst (enrich svc_shops (Some ''K'') klinik_table [])) ''place_id'' 0
       = Some (Text ''None'')"
  using C3_exhaustion_stores_None [of klinik_row "Text ''Klinik Sehat, Jl. Mawar 1, Jakarta''"
      "''Klinik Sehat''" "''Jakarta''" "Text ''Jl. Mawar 1''" svc_shops "[]" "Some ''K''"
      "ok \<lparr>j_candidates = Some
            [\<lparr>c_place_id = Some ''shop1'', c_types = Some [''store'', ''dentist_office'']\<rparr>]\<rparr>"
      "\<lparr>status_code = 500, json = None, url = ''https://maps.example/''\<rparr>"
      "\<lparr>status_code = 500, json = None, url = ''https://maps.example/''\<rparr>"
      0 klinik_table "[]" klinik_table]
    klinik_table_row klinik_table_blank
  by (simp add: klinik_row_def svc_shops_def ok_def no_qualifying_candidate_def disqualified_def
      check_type_in_response_def type_options_def state_before_def)

text \<open>
  C9: when the resolver returns \<open>None\<close> for a row, the body of the row goes on: its next
  request is the detail request with the string \<open>None\<close> as place identifier, and this
  request is in the log of the whole loop.
\<close>

theorem C9_detail_fetch_with_None:
  assumes "get_place_id_from_text_query svc row api_key log = (Inr None, log1)"
  shows "(\<exists>rest. snd (snd (row_body svc api_key index row df log))
            = log1 @ PlaceDetails ''None'' api_key # rest)
     \<and> (index < nrows table \<and> state_before svc api_key table log0 index = (df, log)
          \<and> snd (iterrows table ! index) = row
        \<longrightarrow> PlaceDetails ''None'' api_key \<in> set (snd (enrich svc api_key table log0)))"
proof (intro conjI impI)
  from row_body_detail_request[OF assms, of index df]
  show r: "\<exists>rest. snd (snd (row_body svc api_key index row df log))
            = log1 @ PlaceDetails ''None'' api_key # rest" by simp
  assume h: "index < nrows table \<and> state_before svc api_key table log0 index = (df, log)
          \<and> snd (iterrows table ! index) = row"
  then obtain ext where "snd (enrich svc api_key table log0)
           = snd (snd (row_body svc api_key index row df log)) @ ext"
    using enrich_log[of index table svc api_key log0 df log] by auto
  then show "PlaceDetails ''None'' api_key \<in> set (snd (enrich svc api_key table log0))"
    using r by auto
qed

theorem C9_detail_fetch_with_None_witness:
  "snd (snd (row_body svc_shops (Some ''K'') 0 klinik_row klinik_table []))
     = [FindPlaceFromText (Text ''Klinik Sehat, Jl. Mawar 1, Jakarta'') (Some ''K''),
        FindPlaceFromText (Text ''Klinik Sehat, Jakarta'') (Some ''K''),
        FindPlaceFromText (Text ''Jl. Mawar 1'') (Some ''K''),
        PlaceDetails ''None'' (Some ''K'')]
   \<and> PlaceDetails ''None'' (Some ''K'') \<in> set (snd (enrich svc_shops (Some ''K'') klinik_table []))"
proof -
  note c9 = C9_detail_fetch_with_None [OF klinik_exhausted, of "Some ''K''" 0 klinik_table
      klinik_table "[]"]
  have "PlaceDetails ''None'' (Some ''K'') \<in> set (snd (enrich svc_shops (Some ''K'') klinik_table []))"
    using c9 klinik_table_row klinik_table_blank by (simp add: state_before_def)
  moreover have "snd (snd (row_body svc_shops (Some ''K'') 0 klinik_row klinik_table []))
     = [FindPlaceFromText (Text ''Klinik Sehat, Jl. Mawar 1, Jakarta'') (Some ''K''),
        FindPlaceFromText (Text ''Klinik Sehat, Jakarta'') (Some ''K''),
        FindPlaceFromText (Text ''Jl. Mawar 1'') (Some ''K''),
        PlaceDetails ''None'' (Some ''K'')]"
  proof -
    have d: "details svc_shops lg p k = Inr (ok \<lparr>d_result = None\<rparr>)" for lg p k
      by (simp add: svc_shops_def)
    show ?thesis
      using c9
      by (simp add: row_body_def klinik_exhausted get_place_info_from_place_id_def d
          ok_def result_url_def Let_def)
  qed
  ultimately show ?thesis by simp
qed


subsection \<open>The fields of a row, stage by stage\<close>

lemma fold_at_set_other:
  "l \<notin> set ls
   \<Longrightarrow> cell_at (fold (\<lambda>(label, v) d. at_set d j label (Text v)) (zip ls vals) d) l i
         = cell_at d l i"
proof (induction ls arbitrary: vals d)
  case Nil
  then show ?case by simp
next
  case (Cons a ls)
  show ?case
  proof (cases vals)
    case Nil
    then show ?thesis by simp
  next
    case (Cons v vs)
    have "cell_at (at_set d j a (Text v)) l i = cell_at d l i"
      using Cons.prems by (intro cell_at_at_set_other) auto
    then show ?thesis using Cons Cons.IH[of vs "at_set d j a (Text v)"] Cons.prems by simp
  qed
qed

lemma fold_at_set_nth:
  assumes "distinct ls" and "\<forall>l\<in>set ls. cell_at d l j \<noteq> None" and "k < length ls"
  shows "cell_at (fold (\<lambda>(label, v) d. at_set d j label (Text v)) (zip ls vals) d) (ls ! k) j
           = (if k < length vals then Some (Text (vals ! k)) else cell_at d (ls ! k) j)"
  using assms
proof (induction ls arbitrary: vals d k)
  case Nil
  then show ?case by simp
next
  case (Cons a ls)
  show ?case
  proof (cases vals)
    case Nil
    then show ?thesis by simp
  next
    case vs: (Cons v vs)
    let ?d = "at_set d j a (Text v)"
    show ?thesis
    proof (cases k)
      case 0
      have "a \<notin> set ls" using Cons.prems(1) by simp
      from fold_at_set_other[OF this, of j vs ?d j]
      show ?thesis using 0 vs Cons.prems(2) by (simp add: cell_at_at_set_same)
    next
      case (Suc k')
      have keep: "cell_at ?d l j = cell_at d l j" if "l \<in> set ls" for l
        using that Cons.prems(1) by (intro cell_at_at_set_other) auto
      have pre: "\<forall>l\<in>set ls. cell_at ?d l j \<noteq> None"
        using keep Cons.prems(2) by simp
      have k': "k' < length ls" using Suc Cons.prems(3) by simp
      from Cons.IH[of ?d k' vs] pre k' Cons.prems(1)
      have "cell_at (fold (\<lambda>(label, v) d. at_set d j label (Text v)) (zip ls vs) ?d) (ls ! k') j
           = (if k' < length vs then Some (Text (vs ! k')) else cell_at ?d (ls ! k') j)"
        by simp
      then show ?thesis using Suc vs keep[of "ls ! k'"] k' by simp
    qed
  qed
qed

text \<open>The fields of row \<open>j\<close> after the first \<open>length vals\<close> of them have been assigned.\<close>

lemma cell_at_assigned:
  assumes "\<forall>l\<in>set enriched_labels. cell_at d l j \<noteq> None" and "k < 5"
  shows "cell_at (assigned d j vals) (enriched_labels ! k) j
           = (if k < length vals then Some (Text (vals ! k)) else cell_at d (enriched_labels ! k) j)"
  unfolding assigned_def
  using assms by (intro fold_at_set_nth) (simp_all add: enriched_labels_def)

text \<open>The body of a row by the stage at which it ends.\<close>

lemma row_body_detail_fault:
  assumes "get_place_id_from_text_query svc row api_key log = (Inr r, log1)"
    and "fst (get_place_info_from_place_id svc (str_place_id r) api_key log1) = Inl f"
  shows "fst (snd (row_body svc api_key i row d log)) = assigned d i [str_place_id r]"
    and "fst (row_body svc api_key i row d log) = Inl f"
  using assms by (auto simp: row_body_def Let_def assigned_simps split: prod.splits)

lemma row_body_no_photo:
  assumes "get_place_id_from_text_query svc row api_key log = (Inr r, log1)"
    and "get_place_info_from_place_id svc (str_place_id r) api_key log1 = (Inr place_result, log2)"
    and "d_result place_result = Some res" and "r_url res = Some u"
    and "r_geometry res = Some g" and "g_location g = Some loc"
    and "l_lat loc = Some la" and "l_lng loc = Some ln"
    and "r_photos res = Some []"
  shows "row_body svc api_key i row d log
           = (Inl IndexError, assigned d i [str_place_id r, u, la, ln], log2)"
  using assms
  by (simp add: row_body_def Let_def assigned_simps result_url_def result_lat_def result_lng_def
      result_location_def first_photo_reference_def)


lemma enriched_labels_nth: "k < 5 \<Longrightarrow> enriched_labels ! k \<in> set enriched_labels"
  by (rule nth_mem) (simp add: enriched_labels_def)

lemma row_cells_blank:
  assumes "i < nrows df"
    and "\<forall>l\<in>set enriched_labels. cell_at df l i = Some (Text [])"
    and "state_before svc api_key df log i = (dfi, logi)"
    and "fst (snd (row_body svc api_key i (snd (iterrows df ! i)) dfi logi)) = assigned dfi i vals"
    and "k < 5"
  shows "cell_at (fst (enrich svc api_key df log)) (enriched_labels ! k) i
           = (if k < length vals then Some (Text (vals ! k)) else Some (Text []))"
proof -
  note cols = blank_has_column[OF assms(2)]
  have same: "cell_at dfi l i = cell_at df l i" for l
    by (rule enrich_row(2)[OF assms(1) cols assms(3)])
  have l: "enriched_labels ! k \<in> set enriched_labels"
    using assms(5) by (rule enriched_labels_nth)
  have "\<forall>l\<in>set enriched_labels. cell_at dfi l i \<noteq> None"
    using same assms(2) by simp
  from cell_at_assigned[OF this assms(5), of vals]
  show ?thesis
    using enrich_row(1)[OF assms(1) cols assms(3), of "enriched_labels ! k"] assms(2,4) same l
    by simp
qed

text \<open>
  C6, as stated, fails: in the run where the resolution succeeds and the detail request
  times out, the row of the final output (\<open>list-provider-end.xlsx\<close> and the database) has
  no \<open>place_id\<close> field; the column is dropped before the export. The field holds the
  identifier only in the table after the loop and in its snapshot.
\<close>

theorem C6_final_export_counterexample:
  "main (run svc_detail_timeout db_up)
     = (Inr (),
        \<lparr>requests =
           [FindPlaceFromText (Text ''Klinik Sehat, Jl. Mawar 1, Jakarta'') (Some ''K''),
            PlaceDetails ''clinic2'' (Some ''K'')],
         files =
           [(''output_file_selesai_belum.xlsx'',
             \<lparr>nrows = 1,
              columns =
                [(''id'', [Other ''1'']),
                 (''province'', [Text ''DKI Jakarta'']),
                 (''city'', [Text ''Jakarta'']),
                 (''name'', [Text ''Klinik Sehat'']),
                 (''address'', [Text ''Jl. Mawar 1'']),
                 (''alamat_parameter'', [Text ''Klinik Sehat, Jl. Mawar 1, Jakarta'']),
                 (''place_id'', [Text ''clinic2'']),
                 (''map_url'', [Text []]),
                 (''latitude'', [Text []]),
                 (''longitude'', [Text []]),
                 (''image_url'', [Text []])]\<rparr>),
            (''list-provider-end.xlsx'',
             \<lparr>nrows = 1,
              columns =
                [(''id'', [Other ''1'']),
                 (''province'', [Text ''DKI Jakarta'']),
                 (''city'', [Text ''Jakarta'']),
                 (''name'', [Text ''Klinik Sehat'']),
                 (''address'', [Text ''Jl. Mawar 1'']),
                 (''map_url'', [Text []]),
                 (''latitude'', [Text []]),
                 (''longitude'', [Text []]),
                 (''image_url'', [Text []])]\<rparr>)],
         appended =
           [\<lparr>nrows = 1,
             columns =
               [(''id'', [Other ''1'']),
                (''province'', [Text ''DKI Jakarta'']),
                (''city'', [Text ''Jakarta'']),
                (''name'', [Text ''Klinik Sehat'']),
                (''address'', [Text ''Jl. Mawar 1'']),
                (''map_url'', [Text []]),
                (''latitude'', [Text []]),
                (''longitude'', [Text []]),
                (''image_url'', [Text []])]\<rparr>]\<rparr>)
   \<and> cell_at (snd (files (snd (main (run svc_detail_timeout db_up))) ! 1)) ''place_id'' 0 = None"
  by (simp add: run_simps svc_detail_timeout_def cell_at_def)

text \<open>
  The body of a row, stage by stage: the result, the frame and the log for a fault at each
  stage and for a body that raises nothing.
\<close>

lemma row_body_stages:
  "(get_place_id_from_text_query svc row api_key l0 = (Inl e, l1)
      \<longrightarrow> row_body svc api_key j row d l0 = (Inl e, d, l1))
   \<and> (get_place_id_from_text_query svc row api_key l0 = (Inr r, l1)
        \<and> get_place_info_from_place_id svc (str_place_id r) api_key l1 = (Inl e, l2)
      \<longrightarrow> row_body svc api_key j row d l0 = (Inl e, assigned d j [str_place_id r], l2))
   \<and> (get_place_id_from_text_query svc row api_key l0 = (Inr r, l1)
        \<and> get_place_info_from_place_id svc (str_place_id r) api_key l1 = (Inr place_result, l2)
      \<longrightarrow>
        (result_url place_result = Inl e
           \<longrightarrow> row_body svc api_key j row d l0 = (Inl e, assigned d j [str_place_id r], l2))
        \<and> (result_url place_result = Inr u \<and> result_lat place_result = Inl e
           \<longrightarrow> row_body svc api_key j row d l0 = (Inl e, assigned d j [str_place_id r, u], l2))
        \<and> (result_url place_result = Inr u \<and> result_lat place_result = Inr la
             \<and> result_lng place_result = Inl e
           \<longrightarrow> row_body svc api_key j row d l0
                 = (Inl e, assigned d j [str_place_id r, u, la], l2))
        \<and> (result_url place_result = Inr u \<and> result_lat place_result = Inr la
             \<and> result_lng place_result = Inr ln \<and> first_photo_reference place_result = Inl e
           \<longrightarrow> row_body svc api_key j row d l0
                 = (Inl e, assigned d j [str_place_id r, u, la, ln], l2))
        \<and> (result_url place_result = Inr u \<and> result_lat place_result = Inr la
             \<and> result_lng place_result = Inr ln \<and> first_photo_reference place_result = Inr ref
             \<and> get_image_url_from_photo_preference svc ref api_key l2 = (Inl e, l3)
           \<longrightarrow> row_body svc api_key j row d l0
                 = (Inl e, assigned d j [str_place_id r, u, la, ln], l3))
        \<and> (result_url place_result = Inr u \<and> result_lat place_result = Inr la
             \<and> result_lng place_result = Inr ln \<and> first_photo_reference place_result = Inr ref
             \<and> get_image_url_from_photo_preference svc ref api_key l2 = (Inr im, l3)
           \<longrightarrow> row_body svc api_key j row d l0
                 = (Inr (), assigned d j [str_place_id r, u, la, ln, im], l3)))"
  by (simp add: row_body_def Let_def assigned_simps)


text \<open>
  A row whose resolution succeeds and whose detail fetch raises, in the enriched table and in
  the files written from it.
\<close>

lemma detail_fault_fields:
  assumes "i < nrows df"
    and "\<forall>l\<in>set enriched_labels. cell_at df l i = Some (Text [])"
    and "state_before svc api_key df log i = (dfi, logi)"
    and "get_place_id_from_text_query svc (snd (iterrows df ! i)) api_key logi
           = (Inr (Some p), log1)"
    and "fst (get_place_info_from_place_id svc p api_key log1) = Inl f"
  shows
    "cell_at (fst (enrich svc api_key df log)) ''place_id'' i = Some (Text p)
     \<and> cell_at (fst (enrich svc api_key df log)) ''map_url'' i = Some (Text [])
     \<and> cell_at (fst (enrich svc api_key df log)) ''latitude'' i = Some (Text [])
     \<and> cell_at (fst (enrich svc api_key df log)) ''longitude'' i = Some (Text [])
     \<and> cell_at (fst (enrich svc api_key df log)) ''image_url'' i = Some (Text [])
     \<and> (\<exists>rest. files (snd (persist db (fst (enrich svc api_key df log)) w))
                  = files w
                    @ (''output_file_selesai_belum.xlsx'', fst (enrich svc api_key df log)) # rest
           \<and> (\<forall>final. (''list-provider-end.xlsx'', final) \<in> set rest
                 \<longrightarrow> cell_at final ''place_id'' i = None
                   \<and> cell_at final ''map_url'' i = Some (Text [])
                   \<and> cell_at final ''latitude'' i = Some (Text [])
                   \<and> cell_at final ''longitude'' i = Some (Text [])
                   \<and> cell_at final ''image_url'' i = Some (Text [])))"
proof -
  let ?E = "fst (enrich svc api_key df log)"
  have body: "fst (snd (row_body svc api_key i (snd (iterrows df ! i)) dfi logi))
                = assigned dfi i [p]"
    using row_body_detail_fault(1)[of svc "snd (iterrows df ! i)" api_key logi "Some p" log1 f]
      assms(4,5) by simp
  note cells = row_cells_blank[OF assms(1-3) body]
  have c: "cell_at ?E ''place_id'' i = Some (Text p)"
    "cell_at ?E ''map_url'' i = Some (Text [])"
    "cell_at ?E ''latitude'' i = Some (Text [])"
    "cell_at ?E ''longitude'' i = Some (Text [])"
    "cell_at ?E ''image_url'' i = Some (Text [])"
    using cells[of 0] cells[of 1] cells[of 2] cells[of 3] cells[of 4]
    by (simp_all add: enriched_labels_def)
  from persist_files[of db ?E w] obtain rest where
    files: "files (snd (persist db ?E w))
              = files w @ (''output_file_selesai_belum.xlsx'', ?E) # rest"
    and rest: "rest = [] \<or> (\<exists>dd. drop_columns ?E columns_to_delete = Inr dd
                          \<and> rest = [(''list-provider-end.xlsx'', dd)])"
    by blast
  have final: "cell_at final ''place_id'' i = None
                   \<and> cell_at final ''map_url'' i = Some (Text [])
                   \<and> cell_at final ''latitude'' i = Some (Text [])
                   \<and> cell_at final ''longitude'' i = Some (Text [])
                   \<and> cell_at final ''image_url'' i = Some (Text [])"
    if "(''list-provider-end.xlsx'', final) \<in> set rest" for final
  proof -
    from that rest have "drop_columns ?E columns_to_delete = Inr final" by auto
    from cell_at_drop_columns[OF this] show ?thesis
      using c by (simp add: columns_to_delete_def)
  qed
  show ?thesis using c files final by blast
qed

text \<open>
  C6, amended: for a row whose resolution succeeds and whose detail fetch raises, the
  enriched table has the resolved identifier in \<open>place_id\<close> and the empty string in
  \<open>map_url\<close>, \<open>latitude\<close>, \<open>longitude\<close> and \<open>image_url\<close> of that row; this table is written to
  \<open>output_file_selesai_belum.xlsx\<close>; a final export has the row with the four fields empty
  and no \<open>place_id\<close> column. More generally, for a fault at each stage (resolution, detail
  request, URL, latitude, longitude, photo reference, photo request) the body of the row
  ends with that fault and leaves exactly the fields of the earlier stages assigned, with the
  values these stages gave, and nothing else changed; with no fault all five are assigned.
  A field that is not assigned keeps the cell it had, so in the enriched table a row that
  started empty has the assigned values in its first fields and the empty string in the
  later ones.
\<close>

theorem C6_fault_keeps_earlier_fields:
  "(i < nrows df \<and> (\<forall>l\<in>set enriched_labels. cell_at df l i = Some (Text []))
      \<and> state_before svc api_key df log i = (dfi, logi)
      \<and> get_place_id_from_text_query svc (snd (iterrows df ! i)) api_key logi
           = (Inr (Some p), log1)
      \<and> fst (get_place_info_from_place_id svc p api_key log1) = Inl f
    \<longrightarrow>
      cell_at (fst (enrich svc api_key df log)) ''place_id'' i = Some (Text p)
      \<and> cell_at (fst (enrich svc api_key df log)) ''map_url'' i = Some (Text [])
      \<and> cell_at (fst (enrich svc api_key df log)) ''latitude'' i = Some (Text [])
      \<and> cell_at (fst (enrich svc api_key df log)) ''longitude'' i = Some (Text [])
      \<and> cell_at (fst (enrich svc api_key df log)) ''image_url'' i = Some (Text [])
      \<and> (\<exists>rest. files (snd (persist db (fst (enrich svc api_key df log)) w))
                   = files w
                     @ (''output_file_selesai_belum.xlsx'', fst (enrich svc api_key df log)) # rest
            \<and> (\<forall>final. (''list-provider-end.xlsx'', final) \<in> set rest
                  \<longrightarrow> cell_at final ''place_id'' i = None
                    \<and> cell_at final ''map_url'' i = Some (Text [])
                    \<and> cell_at final ''latitude'' i = Some (Text [])
                    \<and> cell_at final ''longitude'' i = Some (Text [])
                    \<and> cell_at final ''image_url'' i = Some (Text []))))
   \<and> (get_place_id_from_text_query svc row api_key l0 = (Inl e, l1)
      \<longrightarrow> row_body svc api_key j row d l0 = (Inl e, d, l1))
   \<and> (get_place_id_from_text_query svc row api_key l0 = (Inr r, l1)
        \<and> get_place_info_from_place_id svc (str_place_id r) api_key l1 = (Inl e, l2)
      \<longrightarrow> row_body svc api_key j row d l0 = (Inl e, assigned d j [str_place_id r], l2))
   \<and> (get_place_id_from_text_query svc row api_key l0 = (Inr r, l1)
        \<and> get_place_info_from_place_id svc (str_place_id r) api_key l1 = (Inr place_result, l2)
      \<longrightarrow>
        (result_url place_result = Inl e
           \<longrightarrow> row_body svc api_key j row d l0 = (Inl e, assigned d j [str_place_id r], l2))
        \<and> (result_url place_result = Inr u \<and> result_lat place_result = Inl e
           \<longrightarrow> row_body svc api_key j row d l0 = (Inl e, assigned d j [str_place_id r, u], l2))
        \<and> (result_url place_result = Inr u \<and> result_lat place_result = Inr la
             \<and> result_lng place_result = Inl e
           \<longrightarrow> row_body svc api_key j row d l0
                 = (Inl e, assigned d j [str_place_id r, u, la], l2))
        \<and> (result_url place_result = Inr u \<and> result_lat place_result = Inr la
             \<and> result_lng place_result = Inr ln \<and> first_photo_reference place_result = Inl e
           \<longrightarrow> row_body svc api_key j row d l0
                 = (Inl e, assigned d j [str_place_id r, u, la, ln], l2))
        \<and> (result_url place_result = Inr u \<and> result_lat place_result = Inr la
             \<and> result_lng place_result = Inr ln \<and> first_photo_reference place_result = Inr ref
             \<and> get_image_url_from_photo_preference svc ref api_key l2 = (Inl e, l3)
           \<longrightarrow> row_body svc api_key j row d l0
                 = (Inl e, assigned d j [str_place_id r, u, la, ln], l3))
        \<and> (result_url place_result = Inr u \<and> result_lat place_result = Inr la
             \<and> result_lng place_result = Inr ln \<and> first_photo_reference place_result = Inr ref
             \<and> get_image_url_from_photo_preference svc ref api_key l2 = (Inr im, l3)
           \<longrightarrow> row_body svc api_key j row d l0
                 = (Inr (), assigned d j [str_place_id r, u, la, ln, im], l3)))
   \<and> assigned d j [] = d
   \<and> assigned d j [v1] = at_set d j ''place_id'' (Text v1)
   \<and> assigned d j [v1, v2] = at_set (assigned d j [v1]) j ''map_url'' (Text v2)
   \<and> assigned d j [v1, v2, v3] = at_set (assigned d j [v1, v2]) j ''latitude'' (Text v3)
   \<and> assigned d j [v1, v2, v3, v4]
       = at_set (assigned d j [v1, v2, v3]) j ''longitude'' (Text v4)
   \<and> assigned d j [v1, v2, v3, v4, v5]
       = at_set (assigned d j [v1, v2, v3, v4]) j ''image_url'' (Text v5)
   \<and> ((\<forall>l\<in>set enriched_labels. cell_at d l j \<noteq> None) \<and> k < 5
      \<longrightarrow> cell_at (assigned d j vals) (enriched_labels ! k) j
            = (if k < length vals then Some (Text (vals ! k))
               else cell_at d (enriched_labels ! k) j))
   \<and> (i < nrows df \<and> (\<forall>l\<in>set enriched_labels. cell_at df l i = Some (Text []))
        \<and> state_before svc api_key df log i = (dfi, logi)
        \<and> fst (snd (row_body svc api_key i (snd (iterrows df ! i)) dfi logi))
            = assigned dfi i vals
        \<and> k < 5
      \<longrightarrow> cell_at (fst (enrich svc api_key df log)) (enriched_labels ! k) i
            = (if k < length vals then Some (Text (vals ! k)) else Some (Text [])))"
proof -
  have scenario: "cell_at (fst (enrich svc api_key df log)) ''place_id'' i = Some (Text p)
      \<and> cell_at (fst (enrich svc api_key df log)) ''map_url'' i = Some (Text [])
      \<and> cell_at (fst (enrich svc api_key df log)) ''latitude'' i = Some (Text [])
      \<and> cell_at (fst (enrich svc api_key df log)) ''longitude'' i = Some (Text [])
      \<and> cell_at (fst (enrich svc api_key df log)) ''image_url'' i = Some (Text [])
      \<and> (\<exists>rest. files (snd (persist db (fst (enrich svc api_key df log)) w))
                   = files w
                     @ (''output_file_selesai_belum.xlsx'', fst (enrich svc api_key df log)) # rest
            \<and> (\<forall>final. (''list-provider-end.xlsx'', final) \<in> set rest
                  \<longrightarrow> cell_at final ''place_id'' i = None
                    \<and> cell_at final ''map_url'' i = Some (Text [])
                    \<and> cell_at final ''latitude'' i = Some (Text [])
                    \<and> cell_at final ''longitude'' i = Some (Text [])
                    \<and> cell_at final ''image_url'' i = Some (Text [])))"
    if "i < nrows df \<and> (\<forall>l\<in>set enriched_labels. cell_at df l i = Some (Text []))
      \<and> state_before svc api_key df log i = (dfi, logi)
      \<and> get_place_id_from_text_query svc (snd (iterrows df ! i)) api_key logi
           = (Inr (Some p), log1)
      \<and> fst (get_place_info_from_place_id svc p api_key log1) = Inl f"
    using that by (intro detail_fault_fields[of i df svc api_key log dfi logi p log1 f]) simp_all
  note stages = row_body_stages[of svc row api_key l0 e l1 j d r l2 place_result u la ln ref l3 im]
  have simps: "assigned d j [] = d"
    "assigned d j [v1] = at_set d j ''place_id'' (Text v1)"
    "assigned d j [v1, v2] = at_set (assigned d j [v1]) j ''map_url'' (Text v2)"
    "assigned d j [v1, v2, v3] = at_set (assigned d j [v1, v2]) j ''latitude'' (Text v3)"
    "assigned d j [v1, v2, v3, v4]
       = at_set (assigned d j [v1, v2, v3]) j ''longitude'' (Text v4)"
    "assigned d j [v1, v2, v3, v4, v5]
       = at_set (assigned d j [v1, v2, v3, v4]) j ''image_url'' (Text v5)"
    by (simp_all add: assigned_simps)
  have cells: "cell_at (assigned d j vals) (enriched_labels ! k) j
            = (if k < length vals then Some (Text (vals ! k))
               else cell_at d (enriched_labels ! k) j)"
    if "(\<forall>l\<in>set enriched_labels. cell_at d l j \<noteq> None) \<and> k < 5"
    using that cell_at_assigned[of d j k vals] by simp
  have final: "cell_at (fst (enrich svc api_key df log)) (enriched_labels ! k) i
            = (if k < length vals then Some (Text (vals ! k)) else Some (Text []))"
    if "i < nrows df \<and> (\<forall>l\<in>set enriched_labels. cell_at df l i = Some (Text []))
        \<and> state_before svc api_key df log i = (dfi, logi)
        \<and> fst (snd (row_body svc api_key i (snd (iterrows df ! i)) dfi logi))
            = assigned dfi i vals
        \<and> k < 5"
    using that row_cells_blank[of i df svc api_key log dfi logi vals k] by simp
  note s1 = stages[THEN conjunct1]
    and s2 = stages[THEN conjunct2, THEN conjunct1]
    and s3 = stages[THEN conjunct2, THEN conjunct2]
  show ?thesis
    apply (intro conjI)
                apply (rule impI, erule scenario)
               apply (rule s1)
              apply (rule s2)
             apply (rule s3)
            apply (rule simps)+
     apply (rule impI, erule cells)
    apply (rule impI, erule final)
    done
qed


theorem C6_fault_keeps_earlier_fields_witness:
  "cell_at (fst (enrich svc_detail_timeout (Some ''K'') klinik_table [])) ''place_id'' 0
     = Some (Text ''clinic2'')
   \<and> cell_at (fst (enrich svc_detail_timeout (Some ''K'') klinik_table [])) ''map_url'' 0
     = Some (Text [])
   \<and> cell_at (fst (enrich svc_detail_timeout (Some ''K'') klinik_table [])) ''latitude'' 0
     = Some (Text [])
   \<and> cell_at (fst (enrich svc_detail_timeout (Some ''K'') klinik_table [])) ''longitude'' 0
     = Some (Text [])
   \<and> cell_at (fst (enrich svc_detail_timeout (Some ''K'') klinik_table [])) ''image_url'' 0
     = Some (Text [])
   \<and> row_body svc_photo_timeout (Some ''K'') 0 klinik_row klinik_table []
     = (Inl RequestException,
        assigned klinik_table 0
          [''clinic2'', ''https://maps.example/?cid=2'', ''-6.2'', ''106.8''],
        [FindPlaceFromText (Text ''Klinik Sehat, Jl. Mawar 1, Jakarta'') (Some ''K''),
         PlaceDetails ''clinic2'' (Some ''K''),
         PlacePhoto ''abc'' (Some ''K'')])
   \<and> cell_at (fst (enrich svc_photo_timeout (Some ''K'') klinik_table [])) ''longitude'' 0
     = Some (Text ''106.8'')
   \<and> cell_at (fst (enrich svc_photo_timeout (Some ''K'') klinik_table [])) ''image_url'' 0
     = Some (Text [])"
proof -
  let ?q = "FindPlaceFromText (Text ''Klinik Sehat, Jl. Mawar 1, Jakarta'') (Some ''K'')"
  let ?pr = "\<lparr>d_result = Some
               \<lparr>r_url = Some ''https://maps.example/?cid=2'',
                r_geometry = Some \<lparr>g_location = Some \<lparr>l_lat = Some ''-6.2'',
                                                      l_lng = Some ''106.8''\<rparr>\<rparr>,
                r_photos = Some [\<lparr>p_photo_reference = Some ''abc''\<rparr>]\<rparr>\<rparr>"
  have h1: "0 < nrows klinik_table"
    and h2: "\<forall>l\<in>set enriched_labels. cell_at klinik_table l 0 = Some (Text [])"
    using klinik_table_blank by simp_all
  have h4: "get_place_id_from_text_query svc_detail_timeout (snd (iterrows klinik_table ! 0))
              (Some ''K'') [] = (Inr (Some ''clinic2''), [?q])"
    unfolding klinik_table_row
    by (rule klinik_resolved) (simp add: svc_detail_timeout_def)
  have h5: "fst (get_place_info_from_place_id svc_detail_timeout ''clinic2'' (Some ''K'') [?q])
            = Inl RequestException"
    by (simp add: get_place_info_from_place_id_def svc_detail_timeout_def)
  have H: "0 < nrows klinik_table
      \<and> (\<forall>l\<in>set enriched_labels. cell_at klinik_table l 0 = Some (Text []))
      \<and> state_before svc_detail_timeout (Some ''K'') klinik_table [] 0 = (klinik_table, [])
      \<and> get_place_id_from_text_query svc_detail_timeout (snd (iterrows klinik_table ! 0))
           (Some ''K'') [] = (Inr (Some ''clinic2''), [?q])
      \<and> fst (get_place_info_from_place_id svc_detail_timeout ''clinic2'' (Some ''K'') [?q])
           = Inl RequestException"
    using h1 h2 h4 h5 by (simp add: state_before_def)
  note a = C6_fault_keeps_earlier_fields [THEN conjunct1, THEN mp, OF H]
  have r: "get_place_id_from_text_query svc_photo_timeout klinik_row (Some ''K'') []
             = (Inr (Some ''clinic2''), [?q])"
    by (rule klinik_resolved) (simp add: svc_photo_timeout_def)
  have d: "get_place_info_from_place_id svc_photo_timeout (str_place_id (Some ''clinic2''))
             (Some ''K'') [?q] = (Inr ?pr, [?q, PlaceDetails ''clinic2'' (Some ''K'')])"
    by (simp add: get_place_info_from_place_id_def svc_photo_timeout_def svc_found_def ok_def)
  have ph: "result_url ?pr = Inr ''https://maps.example/?cid=2''
      \<and> result_lat ?pr = Inr ''-6.2'' \<and> result_lng ?pr = Inr ''106.8''
      \<and> first_photo_reference ?pr = Inr ''abc''
      \<and> get_image_url_from_photo_preference svc_photo_timeout ''abc'' (Some ''K'')
           [?q, PlaceDetails ''clinic2'' (Some ''K'')]
         = (Inl RequestException,
            [?q, PlaceDetails ''clinic2'' (Some ''K''), PlacePhoto ''abc'' (Some ''K'')])"
    by (simp add: result_url_def result_lat_def result_lng_def result_location_def
        first_photo_reference_def get_image_url_from_photo_preference_def svc_photo_timeout_def)
  note b = C6_fault_keeps_earlier_fields [THEN conjunct2, THEN conjunct2, THEN conjunct2, THEN conjunct1, THEN mp,
      OF conjI [OF r d], THEN conjunct2, THEN conjunct2, THEN conjunct2, THEN conjunct2,
      THEN conjunct1, THEN mp, OF ph, of 0 klinik_table]
  have body: "row_body svc_photo_timeout (Some ''K'') 0 klinik_row klinik_table []
     = (Inl RequestException,
        assigned klinik_table 0
          [''clinic2'', ''https://maps.example/?cid=2'', ''-6.2'', ''106.8''],
        [?q, PlaceDetails ''clinic2'' (Some ''K''), PlacePhoto ''abc'' (Some ''K'')])"
    using b by simp
  have K: "0 < nrows klinik_table
        \<and> (\<forall>l\<in>set enriched_labels. cell_at klinik_table l 0 = Some (Text []))
        \<and> state_before svc_photo_timeout (Some ''K'') klinik_table [] 0 = (klinik_table, [])
        \<and> fst (snd (row_body svc_photo_timeout (Some ''K'') 0 (snd (iterrows klinik_table ! 0))
                      klinik_table []))
            = assigned klinik_table 0
                [''clinic2'', ''https://maps.example/?cid=2'', ''-6.2'', ''106.8'']
        \<and> k < 5" if "k < 5" for k
    using that h1 h2 body by (simp add: state_before_def klinik_table_row)
  note last = C6_fault_keeps_earlier_fields [THEN conjunct2, THEN conjunct2, THEN conjunct2, THEN conjunct2,
      THEN conjunct2, THEN conjunct2, THEN conjunct2, THEN conjunct2, THEN conjunct2,
      THEN conjunct2, THEN conjunct2, THEN mp]
  have c3: "cell_at (fst (enrich svc_photo_timeout (Some ''K'') klinik_table [])) ''longitude'' 0
     = Some (Text ''106.8'')"
    using last [OF K [of 3]] by (simp add: enriched_labels_def)
  have c4: "cell_at (fst (enrich svc_photo_timeout (Some ''K'') klinik_table [])) ''image_url'' 0
     = Some (Text [])"
    using last [OF K [of 4]] by (simp add: enriched_labels_def)
  show ?thesis using a body c3 c4 by blast
qed


text \<open>
  C10: for a row whose detail fetch returns a URL and coordinates and an empty list of
  photos, the enriched table has \<open>map_url\<close>, \<open>latitude\<close> and \<open>longitude\<close> of the row from the
  detail result and the empty string in \<open>image_url\<close>: the body of the row ends with
  \<open>IndexError\<close> after the three assignments, which stay, and without a photo request.
\<close>

theorem C10_no_photo_keeps_coordinates:
  assumes "i < nrows df"
    and "\<forall>l\<in>set enriched_labels. cell_at df l i = Some (Text [])"
    and "state_before svc api_key df log i = (dfi, logi)"
    and "get_place_id_from_text_query svc (snd (iterrows df ! i)) api_key logi = (Inr r, log1)"
    and "get_place_info_from_place_id svc (str_place_id r) api_key log1
           = (Inr place_result, log2)"
    and "d_result place_result = Some res" and "r_url res = Some u"
    and "r_geometry res = Some g" and "g_location g = Some loc"
    and "l_lat loc = Some la" and "l_lng loc = Some ln"
    and "r_photos res = Some []"
  shows
    "cell_at (fst (enrich svc api_key df log)) ''map_url'' i = Some (Text u)
     \<and> cell_at (fst (enrich svc api_key df log)) ''latitude'' i = Some (Text la)
     \<and> cell_at (fst (enrich svc api_key df log)) ''longitude'' i = Some (Text ln)
     \<and> cell_at (fst (enrich svc api_key df log)) ''image_url'' i = Some (Text [])
     \<and> row_body svc api_key i (snd (iterrows df ! i)) dfi logi
         = (Inl IndexError,
            at_set (at_set (at_set (at_set dfi i ''place_id'' (Text (str_place_id r)))
              i ''map_url'' (Text u)) i ''latitude'' (Text la)) i ''longitude'' (Text ln),
            log2)"
proof -
  have body: "row_body svc api_key i (snd (iterrows df ! i)) dfi logi
           = (Inl IndexError, assigned dfi i [str_place_id r, u, la, ln], log2)"
    by (rule row_body_no_photo[OF assms(4-12)])
  then have "fst (snd (row_body svc api_key i (snd (iterrows df ! i)) dfi logi))
           = assigned dfi i [str_place_id r, u, la, ln]" by simp
  note cells = row_cells_blank[OF assms(1-3) this]
  show ?thesis
    using cells[of 1] cells[of 2] cells[of 3] cells[of 4] body
    by (simp add: enriched_labels_def assigned_simps)
qed

theorem C10_no_photo_keeps_coordinates_witness:
  "cell_at (fst (enrich svc_no_photo (Some ''K'') klinik_table [])) ''map_url'' 0
     = Some (Text ''https://maps.example/?cid=2'')
   \<and> cell_at (fst (enrich svc_no_photo (Some ''K'') klinik_table [])) ''latitude'' 0
     = Some (Text ''-6.2'')
   \<and> cell_at (fst (enrich svc_no_photo (Some ''K'') klinik_table [])) ''longitude'' 0
     = Some (Text ''106.8'')
   \<and> cell_at (fst (enrich svc_no_photo (Some ''K'') klinik_table [])) ''image_url'' 0
     = Some (Text [])
   \<and> fst (row_body svc_no_photo (Some ''K'') 0 klinik_row klinik_table []) = Inl IndexError"
proof -
  have h1: "0 < nrows klinik_table"
    and h2: "\<forall>l\<in>set enriched_labels. cell_at klinik_table l 0 = Some (Text [])"
    using klinik_table_blank by simp_all
  have h3: "state_before svc_no_photo (Some ''K'') klinik_table [] 0 = (klinik_table, [])"
    by (simp add: state_before_def)
  have h4: "get_place_id_from_text_query svc_no_photo (snd (iterrows klinik_table ! 0))
              (Some ''K'') []
            = (Inr (Some ''clinic2''),
               [FindPlaceFromText (Text ''Klinik Sehat, Jl. Mawar 1, Jakarta'') (Some ''K'')])"
    unfolding klinik_table_row
    by (rule klinik_resolved) (simp add: svc_no_photo_def)
  have h5: "get_place_info_from_place_id svc_no_photo (str_place_id (Some ''clinic2''))
              (Some ''K'')
              [FindPlaceFromText (Text ''Klinik Sehat, Jl. Mawar 1, Jakarta'') (Some ''K'')]
            = (Inr \<lparr>d_result = Some
                 \<lparr>r_url = Some ''https://maps.example/?cid=2'',
                  r_geometry = Some \<lparr>g_location = Some \<lparr>l_lat = Some ''-6.2'',
                                                        l_lng = Some ''106.8''\<rparr>\<rparr>,
                  r_photos = Some []\<rparr>\<rparr>,
               [FindPlaceFromText (Text ''Klinik Sehat, Jl. Mawar 1, Jakarta'') (Some ''K''),
                PlaceDetails ''clinic2'' (Some ''K'')])"
    by (simp add: get_place_info_from_place_id_def svc_no_photo_def ok_def)
  from C10_no_photo_keeps_coordinates [OF h1 h2 h3 h4 h5,
      of "\<lparr>r_url = Some ''https://maps.example/?cid=2'',
           r_geometry = Some \<lparr>g_location = Some \<lparr>l_lat = Some ''-6.2'',
                                                 l_lng = Some ''106.8''\<rparr>\<rparr>,
           r_photos = Some []\<rparr>" "''https://maps.example/?cid=2''"
      "\<lparr>g_location = Some \<lparr>l_lat = Some ''-6.2'', l_lng = Some ''106.8''\<rparr>\<rparr>"
      "\<lparr>l_lat = Some ''-6.2'', l_lng = Some ''106.8''\<rparr>" "''-6.2''" "''106.8''"]
  show ?thesis by (simp add: klinik_table_row)
qed


subsection \<open>The loop goes on after a fault\<close>

text \<open>The step of the loop at a row is the body of that row, with its fault dropped.\<close>

lemma state_before_0: "state_before svc api_key df log 0 = (df, log)"
  by (simp add: state_before_def)

lemma state_before_Suc_body:
  assumes "i < nrows df"
  shows "state_before svc api_key df log (Suc i)
           = snd (row_body svc api_key i (snd (iterrows df ! i))
                    (fst (state_before svc api_key df log i))
                    (snd (state_before svc api_key df log i)))"
  using state_before_Suc[OF assms, of svc api_key log] assms
  by (simp add: process_row_def iterrows_nth)

text \<open>The run on the two providers, the first request failing.\<close>

lemma providers_table_eq:
  "providers_table =
     \<lparr>nrows = 2,
      columns =
        [(''id'', [Other ''1'', Other ''2'']),
         (''province'', [Text ''Jawa Barat'', Text ''DKI Jakarta'']),
         (''city'', [Text ''Bandung'', Text ''Jakarta'']),
         (''name'', [Text ''Apotek Sejahtera'', Text ''Klinik Sehat'']),
         (''address'', [Text ''Jl. Melati 2'', Text ''Jl. Mawar 1'']),
         (''alamat_parameter'',
          [Text ''Apotek Sejahtera, Jl. Melati 2, Bandung'',
           Text ''Klinik Sehat, Jl. Mawar 1, Jakarta'']),
         (''place_id'', [Text [], Text []]),
         (''map_url'', [Text [], Text []]),
         (''latitude'', [Text [], Text []]),
         (''longitude'', [Text [], Text []]),
         (''image_url'', [Text [], Text []])]\<rparr>"
  by (simp add: providers_table_def providers_def blank_columns_def blank_def setitem_def
      numeral_2_eq_2)

lemma providers_alamat_parameter:
  "alamat_parameter providers
     = Inr [Text ''Apotek Sejahtera, Jl. Melati 2, Bandung'',
            Text ''Klinik Sehat, Jl. Mawar 1, Jakarta'']"
  by (simp add: alamat_parameter_def getitem_def providers_def)

lemma providers_first_row:
  "row_body svc_first_request_fails (Some ''K'') 0 (snd (iterrows providers_table ! 0))
       providers_table []
     = (Inl RequestException, providers_table,
        [FindPlaceFromText (Text ''Apotek Sejahtera, Jl. Melati 2, Bandung'') (Some ''K'')])"
  by (simp add: row_body_def get_place_id_from_text_query_def while_loop.simps max_retries_def
      query_value_def getitem_def get_place_api_def svc_first_request_fails_def iterrows_def
      providers_table_eq)

lemma providers_second_row:
  "row_body svc_first_request_fails (Some ''K'') 1 (snd (iterrows providers_table ! 1))
       providers_table
       [FindPlaceFromText (Text ''Apotek Sejahtera, Jl. Melati 2, Bandung'') (Some ''K'')]
     = (Inr (),
        \<lparr>nrows = 2,
         columns =
           [(''id'', [Other ''1'', Other ''2'']),
            (''province'', [Text ''Jawa Barat'', Text ''DKI Jakarta'']),
            (''city'', [Text ''Bandung'', Text ''Jakarta'']),
            (''name'', [Text ''Apotek Sejahtera'', Text ''Klinik Sehat'']),
            (''address'', [Text ''Jl. Melati 2'', Text ''Jl. Mawar 1'']),
            (''alamat_parameter'',
             [Text ''Apotek Sejahtera, Jl. Melati 2, Bandung'',
              Text ''Klinik Sehat, Jl. Mawar 1, Jakarta'']),
            (''place_id'', [Text [], Text ''clinic2'']),
            (''map_url'', [Text [], Text ''https://maps.example/?cid=2'']),
            (''latitude'', [Text [], Text ''-6.2'']),
            (''longitude'', [Text [], Text ''106.8'']),
            (''image_url'',
             [Text [],
              Text ''https://maps.example/photo?maxwidth=400&photo_reference=abc''])]\<rparr>,
        [FindPlaceFromText (Text ''Apotek Sejahtera, Jl. Melati 2, Bandung'') (Some ''K''),
         FindPlaceFromText (Text ''Klinik Sehat, Jl. Mawar 1, Jakarta'') (Some ''K''),
         PlaceDetails ''clinic2'' (Some ''K''),
         PlacePhoto ''abc'' (Some ''K'')])"
  by (simp add: row_body_def get_place_id_from_text_query_def while_loop.simps max_retries_def
      query_value_def getitem_def get_place_api_def svc_first_request_fails_def svc_found_def
      ok_def scan_response_def check_type_in_response_def type_options_def
      get_place_info_from_place_id_def result_url_def result_lat_def result_lng_def
      result_location_def first_photo_reference_def get_image_url_from_photo_preference_def
      at_set_def setitem_def Let_def iterrows_def providers_table_eq)


text \<open>
  C5: whatever the lookup service does, the loop starts from the table it is given, the row of
  index \<open>i\<close> is made of the cells at \<open>i\<close>, and the state after a row is what the body of
  that row leaves from the state before it, whether the body ended with a fault or not; the
  loop ends after the last row. In particular, after a row whose body raised, the body of
  the next row runs from the frame and the log that the faulting body left. The cells of
  every row in the enriched table are those its own body left, and the requests of its body
  are in the log. The enriched table has as many rows as the table given, every column that
  the pipeline does not fill is as it was, cell by cell and in order, and every column has
  kept its length. In \<open>main\<close>, the table written after the loop is the enriched table of the
  input with its derived query and empty fields: it has the rows of the input table, its
  columns unchanged, and one cell per row in each of the five new columns.
\<close>

theorem C5_one_enriched_row_per_input_row:
  "state_before svc api_key df log 0 = (df, log)
   \<and> (i < nrows df
        \<longrightarrow> iterrows df ! i = (i, map (\<lambda>(label, vs). (label, vs ! i)) (columns df))
          \<and> state_before svc api_key df log (Suc i)
              = snd (row_body svc api_key i (snd (iterrows df ! i))
                       (fst (state_before svc api_key df log i))
                       (snd (state_before svc api_key df log i))))
   \<and> enrich svc api_key df log = state_before svc api_key df log (nrows df)
   \<and> (Suc i < nrows df \<and> state_before svc api_key df log i = (dfi, logi)
        \<and> row_body svc api_key i (snd (iterrows df ! i)) dfi logi = (Inl f, dfn, logn)
        \<longrightarrow> state_before svc api_key df log (Suc (Suc i))
              = snd (row_body svc api_key (Suc i) (snd (iterrows df ! Suc i)) dfn logn))
   \<and> (i < nrows df \<and> (\<forall>l'\<in>set enriched_labels. map_of (columns df) l' \<noteq> None)
        \<and> state_before svc api_key df log i = (dfi, logi)
        \<longrightarrow> cell_at (fst (enrich svc api_key df log)) l i
              = cell_at (fst (snd (row_body svc api_key i (snd (iterrows df ! i)) dfi logi))) l i
          \<and> (\<exists>ext. snd (enrich svc api_key df log)
                      = snd (snd (row_body svc api_key i (snd (iterrows df ! i)) dfi logi)) @ ext))
   \<and> nrows (fst (enrich svc api_key df log)) = nrows df
   \<and> (l \<notin> set enriched_labels
        \<longrightarrow> map_of (columns (fst (enrich svc api_key df log))) l = map_of (columns df) l)
   \<and> (map_of (columns df) l = Some vs
        \<longrightarrow> (\<exists>vs'. map_of (columns (fst (enrich svc api_key df log))) l = Some vs'
                  \<and> length vs' = length vs))
   \<and> (read_excel env = Inr table \<and> alamat_parameter table = Inr ap
        \<longrightarrow> (\<exists>enriched rest.
               enriched = fst (enrich (lookup_service env) (KEY env)
                                (blank_columns (setitem table ''alamat_parameter'' ap)) [])
               \<and> files (snd (main env)) = (''output_file_selesai_belum.xlsx'', enriched) # rest
               \<and> nrows enriched = nrows table
               \<and> (l \<notin> set (''alamat_parameter'' # enriched_labels)
                    \<longrightarrow> map_of (columns enriched) l = map_of (columns table) l)
               \<and> (\<forall>l'\<in>set enriched_labels.
                     \<exists>vs'. map_of (columns enriched) l' = Some vs' \<and> length vs' = nrows table)))"
proof (intro conjI impI)
  show "state_before svc api_key df log 0 = (df, log)" by (rule state_before_0)
next
  assume "i < nrows df"
  then show "iterrows df ! i = (i, map (\<lambda>(label, vs). (label, vs ! i)) (columns df))"
    by (rule iterrows_nth)
next
  assume "i < nrows df"
  then show "state_before svc api_key df log (Suc i)
              = snd (row_body svc api_key i (snd (iterrows df ! i))
                       (fst (state_before svc api_key df log i))
                       (snd (state_before svc api_key df log i)))"
    by (rule state_before_Suc_body)
next
  show "enrich svc api_key df log = state_before svc api_key df log (nrows df)"
    by (rule enrich_state_before)
next
  assume h: "Suc i < nrows df \<and> state_before svc api_key df log i = (dfi, logi)
        \<and> row_body svc api_key i (snd (iterrows df ! i)) dfi logi = (Inl f, dfn, logn)"
  then have "state_before svc api_key df log (Suc i) = (dfn, logn)"
    using state_before_Suc_body[of i df svc api_key log] by simp
  then show "state_before svc api_key df log (Suc (Suc i))
              = snd (row_body svc api_key (Suc i) (snd (iterrows df ! Suc i)) dfn logn)"
    using state_before_Suc_body[of "Suc i" df svc api_key log] h by simp
next
  assume h: "i < nrows df \<and> (\<forall>l'\<in>set enriched_labels. map_of (columns df) l' \<noteq> None)
        \<and> state_before svc api_key df log i = (dfi, logi)"
  then show "cell_at (fst (enrich svc api_key df log)) l i
              = cell_at (fst (snd (row_body svc api_key i (snd (iterrows df ! i)) dfi logi))) l i"
    using enrich_row(1)[of i df svc api_key log dfi logi l] by simp
next
  assume h: "i < nrows df \<and> (\<forall>l'\<in>set enriched_labels. map_of (columns df) l' \<noteq> None)
        \<and> state_before svc api_key df log i = (dfi, logi)"
  then show "\<exists>ext. snd (enrich svc api_key df log)
                      = snd (snd (row_body svc api_key i (snd (iterrows df ! i)) dfi logi)) @ ext"
    using enrich_log[of i df svc api_key log dfi logi] by simp
next
  show "nrows (fst (enrich svc api_key df log)) = nrows df"
    using enrich_keeps[of svc api_key df log] by simp
next
  assume "l \<notin> set enriched_labels"
  then show "map_of (columns (fst (enrich svc api_key df log))) l = map_of (columns df) l"
    using enrich_keeps[of svc api_key df log] by simp
next
  assume "map_of (columns df) l = Some vs"
  then show "\<exists>vs'. map_of (columns (fst (enrich svc api_key df log))) l = Some vs'
                  \<and> length vs' = length vs"
    using enrich_keeps[of svc api_key df log] by blast
next
  assume h: "read_excel env = Inr table \<and> alamat_parameter table = Inr ap"
  define F where "F = blank_columns (setitem table ''alamat_parameter'' ap)"
  define E where "E = fst (enrich (lookup_service env) (KEY env) F [])"
  have keeps: "nrows E = nrows F"
    "\<And>l. l \<notin> set enriched_labels \<Longrightarrow> map_of (columns E) l = map_of (columns F) l"
    "\<And>l vs. map_of (columns F) l = Some vs
        \<Longrightarrow> \<exists>vs'. map_of (columns E) l = Some vs' \<and> length vs' = length vs"
    using enrich_keeps[of "lookup_service env" "KEY env" F "[]"] by (auto simp: E_def)
  have nF: "nrows F = nrows table" by (simp add: F_def setitem_def)
  have "main env = persist (postgres env) E
          \<lparr>requests = snd (enrich (lookup_service env) (KEY env) F []), files = [], appended = []\<rparr>"
    using main_persist[of env table ap] h by (simp add: E_def F_def)
  then obtain rest where
    f: "files (snd (main env)) = (''output_file_selesai_belum.xlsx'', E) # rest"
    using persist_files[of "postgres env" E
        "\<lparr>requests = snd (enrich (lookup_service env) (KEY env) F []), files = [], appended = []\<rparr>"]
    by auto
  have a: "l \<notin> set (''alamat_parameter'' # enriched_labels)
        \<longrightarrow> map_of (columns E) l = map_of (columns table) l"
    using keeps(2)[of l] by (simp add: F_def map_of_blank_columns map_of_columns_setitem)
  have b: "\<forall>l'\<in>set enriched_labels. \<exists>vs'. map_of (columns E) l' = Some vs' \<and> length vs' = nrows table"
  proof
    fix l' assume "l' \<in> set enriched_labels"
    then have "map_of (columns F) l' = Some (blank (setitem table ''alamat_parameter'' ap))"
      by (simp add: F_def map_of_blank_columns)
    from keeps(3)[OF this] show "\<exists>vs'. map_of (columns E) l' = Some vs' \<and> length vs' = nrows table"
      by (simp add: blank_def setitem_def)
  qed
  show "\<exists>enriched rest.
               enriched = fst (enrich (lookup_service env) (KEY env)
                                (blank_columns (setitem table ''alamat_parameter'' ap)) [])
               \<and> files (snd (main env)) = (''output_file_selesai_belum.xlsx'', enriched) # rest
               \<and> nrows enriched = nrows table
               \<and> (l \<notin> set (''alamat_parameter'' # enriched_labels)
                    \<longrightarrow> map_of (columns enriched) l = map_of (columns table) l)
               \<and> (\<forall>l'\<in>set enriched_labels.
                     \<exists>vs'. map_of (columns enriched) l' = Some vs' \<and> length vs' = nrows table)"
    using f keeps(1) nF a b by (intro exI[of _ E] exI[of _ rest]) (simp add: E_def F_def)
qed


theorem C5_one_enriched_row_per_input_row_witness:
  "row_body svc_first_request_fails (Some ''K'') 0 (snd (iterrows providers_table ! 0))
       providers_table []
     = (Inl RequestException, providers_table,
        [FindPlaceFromText (Text ''Apotek Sejahtera, Jl. Melati 2, Bandung'') (Some ''K'')])
   \<and> enrich svc_first_request_fails (Some ''K'') providers_table []
     = snd (row_body svc_first_request_fails (Some ''K'') 1 (snd (iterrows providers_table ! 1))
              providers_table
              [FindPlaceFromText (Text ''Apotek Sejahtera, Jl. Melati 2, Bandung'') (Some ''K'')])
   \<and> cell_at (fst (enrich svc_first_request_fails (Some ''K'') providers_table []))
        ''place_id'' 0 = Some (Text [])
   \<and> cell_at (fst (enrich svc_first_request_fails (Some ''K'') providers_table []))
        ''place_id'' 1 = Some (Text ''clinic2'')
   \<and> cell_at (fst (enrich svc_first_request_fails (Some ''K'') providers_table []))
        ''image_url'' 1
       = Some (Text ''https://maps.example/photo?maxwidth=400&photo_reference=abc'')
   \<and> (\<exists>rest. files (snd (main (run_on providers svc_first_request_fails db_up)))
        = (''output_file_selesai_belum.xlsx'',
           fst (enrich svc_first_request_fails (Some ''K'') providers_table [])) # rest)"
proof -
  let ?q = "FindPlaceFromText (Text ''Apotek Sejahtera, Jl. Melati 2, Bandung'') (Some ''K'')"
  note t = C5_one_enriched_row_per_input_row [where svc = svc_first_request_fails and api_key = "Some ''K''"
      and df = providers_table and log = "[]" and i = 0 and dfi = providers_table
      and logi = "[]" and f = RequestException and dfn = providers_table and logn = "[?q]"
      and l = "''place_id''" and vs = "[Text [], Text []]"
      and env = "run_on providers svc_first_request_fails db_up" and table = providers
      and ap = "[Text ''Apotek Sejahtera, Jl. Melati 2, Bandung'',
                 Text ''Klinik Sehat, Jl. Mawar 1, Jakarta'']"]
  have n: "nrows providers_table = Suc (Suc 0)" by (simp add: providers_table_eq)
  have e: "enrich svc_first_request_fails (Some ''K'') providers_table []
     = snd (row_body svc_first_request_fails (Some ''K'') 1 (snd (iterrows providers_table ! 1))
              providers_table [?q])"
    using t providers_first_row n by simp
  have m: "\<exists>rest. files (snd (main (run_on providers svc_first_request_fails db_up)))
        = (''output_file_selesai_belum.xlsx'',
           fst (enrich svc_first_request_fails (Some ''K'') providers_table [])) # rest"
  proof -
    have pt: "blank_columns (setitem providers ''alamat_parameter''
                [Text ''Apotek Sejahtera, Jl. Melati 2, Bandung'',
                 Text ''Klinik Sehat, Jl. Mawar 1, Jakarta'']) = providers_table"
      by (simp add: providers_table_def)
    note tl = t [THEN conjunct2, THEN conjunct2, THEN conjunct2, THEN conjunct2, THEN conjunct2,
        THEN conjunct2, THEN conjunct2, THEN conjunct2]
    show ?thesis
      using tl providers_alamat_parameter by (auto simp: run_on_def pt)
  qed
  have c: "cell_at (fst (enrich svc_first_request_fails (Some ''K'') providers_table []))
        ''place_id'' 0 = Some (Text [])
   \<and> cell_at (fst (enrich svc_first_request_fails (Some ''K'') providers_table []))
        ''place_id'' 1 = Some (Text ''clinic2'')
   \<and> cell_at (fst (enrich svc_first_request_fails (Some ''K'') providers_table []))
        ''image_url'' 1
       = Some (Text ''https://maps.example/photo?maxwidth=400&photo_reference=abc'')"
    unfolding e providers_second_row by (simp add: cell_at_def)
  show ?thesis
    using providers_first_row e c m by blast
qed


end
